theory Spec2Isabelle
  imports Main
begin

section \<open>The RPC bridge of \<^verbatim>\<open>lib/browser/rpc.js\<close>\<close>

text \<open>
  A shallow embedding of the client half of the RPC bridge: the envelope codec
  (\<^verbatim>\<open>serialize\<close>, \<^verbatim>\<open>deserialize\<close>), the callback registry
  (\<^verbatim>\<open>registerCallback\<close>, \<^verbatim>\<open>clearTestState\<close>), the dispatcher
  (\<^verbatim>\<open>sendRequest\<close>) and its poll back-off.
\<close>

subsection \<open>JavaScript values\<close>

text \<open>
  One type for every value the bridge touches: local values, wire envelopes (plain
  objects) and parsed JSON responses. Every object kind carries the value stored under
  the private key \<^verbatim>\<open>keys.id\<close> (\<^verbatim>\<open>value[idKey]\<close>) as its first
  argument, \<open>JUndefined\<close> when the key is absent. A function is its identity. A plain
  object is the list of its own enumerable string-keyed properties, in the order
  \<^verbatim>\<open>Object.keys\<close> lists them. Numbers are integers: the bridge does no
  arithmetic on wire numbers and only tests them for zero.
\<close>

datatype jsval =
    JUndefined
  | JNull
  | JBool bool
  | JNum int
  | JStr string
  | JFunction nat
  | JDate jsval int
  | JArray jsval "jsval list"
  | JBinary jsval "nat list"
  | JObject jsval "(string \<times> jsval) list"

type_synonym props = "(string \<times> jsval) list"

text \<open>Exceptions: the engine's errors, \<^verbatim>\<open>Object.assign(new Error(arg), fields)\<close>
  as \<open>ErrorObject arg fields\<close>, and a value thrown by code the bridge calls.\<close>

datatype exn =
    TypeError
  | SyntaxError
  | ErrorObject jsval props
  | Thrown jsval

text \<open>What a local callback does when applied: it returns a value or throws one.\<close>

datatype completion = Returns jsval | Throws jsval

text \<open>
  The surroundings the bridge calls into: the local callbacks
  (\<^verbatim>\<open>fn.apply(thisObject, args)\<close>, taken to make no use of the bridge while they
  run), the helpers of \<^verbatim>\<open>./base64\<close>,
  the \<^verbatim>\<open>Date\<close> constructor on a non-number, string conversion of a
  non-primitive, \<^verbatim>\<open>JSON.stringify\<close>, and the object a \<^verbatim>\<open>catch\<close>
  clause sees for an error the engine or the bridge has created.
\<close>

record env =
  invoke :: "nat \<Rightarrow> jsval \<Rightarrow> jsval \<Rightarrow> completion"
  b64encode :: "nat list \<Rightarrow> jsval"
  b64decode :: "jsval \<Rightarrow> jsval + jsval"
  timeValue :: "jsval \<Rightarrow> int"
  showObject :: "jsval \<Rightarrow> string"
  stringify :: "jsval \<Rightarrow> jsval"
  errorValue :: "exn \<Rightarrow> jsval"

fun truthy :: "jsval \<Rightarrow> bool" where
  "truthy JUndefined = False"
| "truthy JNull = False"
| "truthy (JBool b) = b"
| "truthy (JNum n) = (n \<noteq> 0)"
| "truthy (JStr s) = (s \<noteq> [])"
| "truthy _ = True"

definition nullish :: "jsval \<Rightarrow> bool" where
  "nullish v = (v = JUndefined \<or> v = JNull)"

fun obj_get :: "props \<Rightarrow> string \<Rightarrow> jsval" where
  "obj_get [] k = JUndefined"
| "obj_get ((k', v) # ps) k = (if k' = k then v else obj_get ps k)"

text \<open>
  \<^verbatim>\<open>object[k] = v\<close> on a plain object: an existing own property keeps its place
  and takes the value; a new key goes last, except the key \<^verbatim>\<open>__proto__\<close>, for which
  the assignment reaches the setter inherited from \<^verbatim>\<open>Object.prototype\<close> and
  creates no own property (the prototype it may install is not part of this model). A new
  key always goes last here, also an integer-like key, which the engine lists before the
  other keys.
\<close>

fun obj_set :: "props \<Rightarrow> string \<Rightarrow> jsval \<Rightarrow> props" where
  "obj_set [] k v = (if k = ''__proto__'' then [] else [(k, v)])"
| "obj_set ((k', v') # ps) k v =
     (if k' = k then (k, v) # ps else (k', v') # obj_set ps k v)"

text \<open>\<^verbatim>\<open>Object.assign(target, source)\<close> on plain objects.\<close>

definition objectAssign :: "props \<Rightarrow> props \<Rightarrow> props" where
  "objectAssign target source = foldl (\<lambda>object (k, v). obj_set object k v) target source"

text \<open>Decimal rendering of a natural number, as in a property key or a template
  literal.\<close>

definition digit :: "nat \<Rightarrow> char" where
  "digit n = ''0123456789'' ! (n mod 10)"

fun decimal :: "nat \<Rightarrow> string" where
  "decimal n = (if n < 10 then [digit n] else decimal (n div 10) @ [digit (n mod 10)])"

declare decimal.simps [simp del]

text \<open>String conversion (template literals, \<^verbatim>\<open>'' + e\<close>, property keys). A number
  is an integer here and is printed in full, also from \<^verbatim>\<open>1e21\<close> on, where the engine
  switches to exponent form.\<close>

fun to_string :: "env \<Rightarrow> jsval \<Rightarrow> string" where
  "to_string env JUndefined = ''undefined''"
| "to_string env JNull = ''null''"
| "to_string env (JBool b) = (if b then ''true'' else ''false'')"
| "to_string env (JNum n) = (if n < 0 then CHR ''-'' # decimal (nat (- n)) else decimal (nat n))"
| "to_string env (JStr s) = s"
| "to_string env v = showObject env v"

text \<open>
  A property read \<^verbatim>\<open>v.k\<close> on a value that is neither \<^verbatim>\<open>null\<close> nor
  \<^verbatim>\<open>undefined\<close>: own data properties, and \<^verbatim>\<open>length\<close> of arrays and
  strings. Members inherited from the built-in prototypes are not data of this model.
\<close>

fun read_prop :: "jsval \<Rightarrow> string \<Rightarrow> jsval" where
  "read_prop (JObject i ps) k = obj_get ps k"
| "read_prop (JArray i xs) k = (if k = ''length'' then JNum (int (length xs)) else JUndefined)"
| "read_prop (JStr s) k = (if k = ''length'' then JNum (int (length s)) else JUndefined)"
| "read_prop v k = JUndefined"

text \<open>The same read where the value may be \<^verbatim>\<open>null\<close> or \<^verbatim>\<open>undefined\<close>: the
  engine throws a \<^verbatim>\<open>TypeError\<close>.\<close>

definition get_prop :: "jsval \<Rightarrow> string \<Rightarrow> exn + jsval" where
  "get_prop v k = (if nullish v then Inl TypeError else Inr (read_prop v k))"

text \<open>An indexed read \<^verbatim>\<open>v[i]\<close> with a loop counter \<open>i\<close>.\<close>

fun read_index :: "jsval \<Rightarrow> nat \<Rightarrow> jsval" where
  "read_index (JArray i xs) n = (if n < length xs then xs ! n else JUndefined)"
| "read_index (JStr s) n = (if n < length s then JStr [s ! n] else JUndefined)"
| "read_index (JObject i ps) n = obj_get ps (decimal n)"
| "read_index v n = JUndefined"

definition get_index :: "jsval \<Rightarrow> nat \<Rightarrow> exn + jsval" where
  "get_index v n = (if nullish v then Inl TypeError else Inr (read_index v n))"

text \<open>The loop test \<^verbatim>\<open>i < len\<close> where \<open>len\<close> was read from a
  \<^verbatim>\<open>length\<close> property; a length that is no number ends the loop.\<close>

fun below :: "nat \<Rightarrow> jsval \<Rightarrow> bool" where
  "below i (JNum n) = (int i < n)"
| "below i v = False"

subsection \<open>Constants of \<^verbatim>\<open>./constants\<close>\<close>

text \<open>Modelled from the spec: the type tags \<^verbatim>\<open>objectTypes\<close> of the module
  \<^verbatim>\<open>./constants\<close>, which is not among the sources. The spec names the tags
  undefined, function, date, binary and dict; the dispatcher itself spells the last one
  \<^verbatim>\<open>'dict'\<close>.\<close>

definition UNDEFINED :: string where "UNDEFINED = ''undefined''"
definition FUNCTION :: string where "FUNCTION = ''function''"
definition DATE :: string where "DATE = ''date''"
definition DATA :: string where "DATA = ''binary''"
definition DICT :: string where "DICT = ''dict''"

subsection \<open>Callback registry\<close>

text \<open>\<^verbatim>\<open>Array.prototype.indexOf\<close>: the first position holding the element, or -1.\<close>

fun indexOf :: "'a list \<Rightarrow> 'a \<Rightarrow> int" where
  "indexOf [] x = - 1"
| "indexOf (y # ys) x =
     (if y = x then 0 else (let key = indexOf ys x in if key \<ge> 0 then key + 1 else - 1))"

text \<open>\<^verbatim>\<open>registerCallback\<close>, on the array \<^verbatim>\<open>registeredCallbacks\<close>: the key
  returned and the array afterwards.\<close>

definition registerCallback :: "nat \<Rightarrow> nat list \<Rightarrow> int \<times> nat list" where
  "registerCallback callback registeredCallbacks =
     (let key = indexOf registeredCallbacks callback
      in if key \<ge> 0 then (key, registeredCallbacks)
         else (int (length (registeredCallbacks @ [callback])) - 1,
               registeredCallbacks @ [callback]))"

text \<open>\<^verbatim>\<open>registeredCallbacks[handle]\<close> for a numeric handle, which is what
  \<^verbatim>\<open>registerCallback\<close> hands out; any other handle (a string such as
  \<^verbatim>\<open>'0'\<close> or \<^verbatim>\<open>'length'\<close>, which the engine would look up as a property key)
  finds no entry in this model.\<close>

fun resolve :: "nat list \<Rightarrow> jsval \<Rightarrow> jsval" where
  "resolve registeredCallbacks (JNum n) =
     (if 0 \<le> n \<and> n < int (length registeredCallbacks)
      then JFunction (registeredCallbacks ! nat n) else JUndefined)"
| "resolve registeredCallbacks v = JUndefined"

subsection \<open>Envelope codec\<close>

text \<open>\<^verbatim>\<open>serialize(realmId, value)\<close>, threading \<^verbatim>\<open>registeredCallbacks\<close> through
  the calls in evaluation order.\<close>

fun serialize :: "env \<Rightarrow> jsval \<Rightarrow> jsval \<Rightarrow> nat list \<Rightarrow> jsval \<times> nat list"
and serialize_items :: "env \<Rightarrow> jsval \<Rightarrow> jsval list \<Rightarrow> nat list \<Rightarrow> jsval list \<times> nat list"
and serialize_props :: "env \<Rightarrow> jsval \<Rightarrow> props \<Rightarrow> nat list \<Rightarrow> jsval list \<times> nat list"
where
  "serialize env realmId JUndefined r = (JObject JUndefined [(''type'', JStr UNDEFINED)], r)"
| "serialize env realmId (JFunction f) r =
     (let (key, r') = registerCallback f r
      in (JObject JUndefined [(''type'', JStr FUNCTION), (''value'', JNum key)], r'))"
| "serialize env realmId JNull r = (JObject JUndefined [(''value'', JNull)], r)"
| "serialize env realmId (JBool b) r = (JObject JUndefined [(''value'', JBool b)], r)"
| "serialize env realmId (JNum n) r = (JObject JUndefined [(''value'', JNum n)], r)"
| "serialize env realmId (JStr s) r = (JObject JUndefined [(''value'', JStr s)], r)"
| "serialize env realmId (JDate id' t) r =
     (if truthy id' then (JObject JUndefined [(''id'', id')], r)
      else (JObject JUndefined [(''type'', JStr DATE), (''value'', JNum t)], r))"
| "serialize env realmId (JArray id' items) r =
     (if truthy id' then (JObject JUndefined [(''id'', id')], r)
      else (let (array, r') = serialize_items env realmId items r
            in (JObject JUndefined [(''value'', JArray JUndefined array)], r')))"
| "serialize env realmId (JBinary id' bytes) r =
     (if truthy id' then (JObject JUndefined [(''id'', id')], r)
      else (JObject JUndefined [(''type'', JStr DATA), (''value'', b64encode env bytes)], r))"
| "serialize env realmId (JObject id' ps) r =
     (if truthy id' then (JObject JUndefined [(''id'', id')], r)
      else (let (values, r') = serialize_props env realmId ps r
            in (JObject JUndefined
                  [(''type'', JStr DICT),
                   (''keys'', JArray JUndefined (map (\<lambda>p. JStr (fst p)) ps)),
                   (''values'', JArray JUndefined values)], r')))"
| "serialize_items env realmId [] r = ([], r)"
| "serialize_items env realmId (item # items) r =
     (let (x, r1) = serialize env realmId item r;
          (xs, r2) = serialize_items env realmId items r1
      in (x # xs, r2))"
| "serialize_props env realmId [] r = ([], r)"
| "serialize_props env realmId ((key, v) # ps) r =
     (let (x, r1) = serialize env realmId v r;
          (xs, r2) = serialize_props env realmId ps r1
      in (x # xs, r2))"

text \<open>The table \<^verbatim>\<open>typeConverters\<close> after the four registrations this module makes
  when it is loaded; a later registration wins where two tags coincide. The lookup
  \<^verbatim>\<open>type && typeConverters[type]\<close> is \<open>handler_of\<close>: a truthy tag is looked up
  under its string conversion. The table holds its own entries only: a tag that names a
  member the table inherits from \<^verbatim>\<open>Object.prototype\<close> finds no converter here.\<close>

datatype converter = DataConverter | DateConverter | DictConverter | FunctionConverter

definition typeConverters :: "string \<Rightarrow> converter option" where
  "typeConverters type =
     (if type = FUNCTION then Some FunctionConverter
      else if type = DICT then Some DictConverter
      else if type = DATE then Some DateConverter
      else if type = DATA then Some DataConverter
      else None)"

definition handler_of :: "env \<Rightarrow> jsval \<Rightarrow> converter option" where
  "handler_of env type = (if truthy type then typeConverters (to_string env type) else None)"

text \<open>\<^verbatim>\<open>new Date(value)\<close>.\<close>

fun newDate :: "env \<Rightarrow> jsval \<Rightarrow> jsval" where
  "newDate env (JNum t) = JDate JUndefined t"
| "newDate env v = JDate JUndefined (timeValue env v)"

text \<open>Reads return parts of the value read, which is what makes the codec's
  recursion terminate.\<close>

lemma size_obj_get: "size (obj_get ps k) \<le> size_list (size_prod (\<lambda>x. 0) size) ps"
  by (induction ps) auto

lemma size_read_prop: "size (read_prop v k) \<le> size v"
proof (cases v)
  case (JObject i ps)
  then show ?thesis using size_obj_get [of ps k] by simp
qed simp_all

lemma size_read_prop_handler:
  assumes "handler_of env (read_prop info ''type'') = Some c"
  shows "size (read_prop info k) < size info"
proof (cases info)
  case (JObject i ps)
  then show ?thesis using size_obj_get [of ps k] by simp
qed (use assms in \<open>simp_all add: handler_of_def\<close>)

lemma size_nth: "n < length xs \<Longrightarrow> size (xs ! n) < Suc (size_list size xs)"
proof (induction xs arbitrary: n)
  case (Cons a xs)
  then show ?case
  proof (cases n)
    case (Suc m)
    then show ?thesis using Cons.IH [of m] Cons.prems by simp
  qed simp
qed simp

lemma size_read_index: "size (read_index v n) \<le> size v"
proof (cases v)
  case (JObject i ps)
  then show ?thesis using size_obj_get [of ps "decimal n"] by simp
next
  case (JArray i xs)
  then show ?thesis using size_nth [of n xs] by auto
qed simp_all

text \<open>\<^verbatim>\<open>deserialize(realmId, info)\<close> with the registered converters inlined:
  \<^verbatim>\<open>deserializeDict\<close> is the \<open>DictConverter\<close> branch and its \<^verbatim>\<open>for\<close>
  loop is \<open>deserializeDict_loop\<close>; \<^verbatim>\<open>deserializeFunction\<close> is \<open>resolve\<close>.\<close>

function deserialize :: "env \<Rightarrow> jsval \<Rightarrow> nat list \<Rightarrow> jsval \<Rightarrow> exn + jsval"
and deserialize_items :: "env \<Rightarrow> jsval \<Rightarrow> nat list \<Rightarrow> jsval list \<Rightarrow> exn + jsval list"
and deserializeDict_loop ::
  "env \<Rightarrow> jsval \<Rightarrow> nat list \<Rightarrow> jsval \<Rightarrow> jsval \<Rightarrow> jsval \<Rightarrow> nat \<Rightarrow> props \<Rightarrow> exn + props"
where
  "deserialize env realmId r info =
     (if nullish info then Inl TypeError
      else (case handler_of env (read_prop info ''type'') of
              Some DataConverter \<Rightarrow>
                (case b64decode env (read_prop info ''value'') of
                   Inl e \<Rightarrow> Inl (Thrown e)
                 | Inr buffer \<Rightarrow> Inr buffer)
            | Some DateConverter \<Rightarrow> Inr (newDate env (read_prop info ''value''))
            | Some DictConverter \<Rightarrow>
                (let keys = read_prop info ''keys''; values = read_prop info ''values''
                 in (case get_prop keys ''length'' of
                       Inl e \<Rightarrow> Inl e
                     | Inr len \<Rightarrow>
                         (case deserializeDict_loop env realmId r keys values len 0 [] of
                            Inl e \<Rightarrow> Inl e
                          | Inr object \<Rightarrow> Inr (JObject JUndefined object))))
            | Some FunctionConverter \<Rightarrow> Inr (resolve r (read_prop info ''value''))
            | None \<Rightarrow>
                (case read_prop info ''value'' of
                   JArray i items \<Rightarrow>
                     (case deserialize_items env realmId r items of
                        Inl e \<Rightarrow> Inl e
                      | Inr array \<Rightarrow> Inr (JArray JUndefined array))
                 | value \<Rightarrow> Inr value)))"
| "deserialize_items env realmId r [] = Inr []"
| "deserialize_items env realmId r (item # items) =
     (case deserialize env realmId r item of
        Inl e \<Rightarrow> Inl e
      | Inr x \<Rightarrow>
          (case deserialize_items env realmId r items of
             Inl e \<Rightarrow> Inl e
           | Inr xs \<Rightarrow> Inr (x # xs)))"
| "deserializeDict_loop env realmId r keys values len i object =
     (if below i len then
        (case get_index values i of
           Inl e \<Rightarrow> Inl e
         | Inr info \<Rightarrow>
             (case deserialize env realmId r info of
                Inl e \<Rightarrow> Inl e
              | Inr v \<Rightarrow>
                  deserializeDict_loop env realmId r keys values len (Suc i)
                    (obj_set object (to_string env (read_index keys i)) v)))
      else Inr object)"
  by pat_completeness auto
termination
  apply (relation "measures [
     (\<lambda>x. case x of
        Inl (env, realmId, r, info) \<Rightarrow> 2 * size info + 1
      | Inr (Inl (env, realmId, r, items)) \<Rightarrow> 2 * size_list size items
      | Inr (Inr (env, realmId, r, keys, values, len, i, object)) \<Rightarrow> 2 * size values + 2),
     (\<lambda>x. case x of
        Inr (Inr (env, realmId, r, keys, values, len, i, object)) \<Rightarrow>
          (case len of JNum n \<Rightarrow> nat n - i | _ \<Rightarrow> 0)
      | _ \<Rightarrow> 0)]")
  apply (auto simp: get_index_def get_prop_def split: if_splits jsval.splits)
  subgoal for env info i items using size_read_prop [of info "''value''"] by simp
  subgoal for env info
    using size_read_prop_handler [of env info DictConverter "''values''"] by simp
  subgoal for vs i n using size_read_index [of vs i] by simp
  done

declare deserialize.simps [simp del] deserializeDict_loop.simps [simp del]

subsection \<open>Error reconstruction\<close>

text \<open>\<^verbatim>\<open>s.replace(/^[a-z]+: /i, '')\<close>: the longest run of ASCII letters at the start
  of the string, when it is not empty and \<^verbatim>\<open>': '\<close> follows it, is removed together
  with that separator.\<close>

definition is_letter :: "char \<Rightarrow> bool" where
  "is_letter c = (c \<in> set (''abcdefghijklmnopqrstuvwxyz'' @ ''ABCDEFGHIJKLMNOPQRSTUVWXYZ''))"

definition replace_type_prefix :: "string \<Rightarrow> string" where
  "replace_type_prefix s =
     (let word = takeWhile is_letter s; rest = dropWhile is_letter s
      in if word \<noteq> [] \<and> take 2 rest = '': '' then drop 2 rest else s)"

text \<open>\<^verbatim>\<open>v == 'dict'\<close>: a string is compared as it is, an object through its string
  conversion, and no number, boolean, \<^verbatim>\<open>null\<close> or \<^verbatim>\<open>undefined\<close> equals
  this literal.\<close>

fun loosely_dict :: "env \<Rightarrow> jsval \<Rightarrow> bool" where
  "loosely_dict env (JStr s) = (s = ''dict'')"
| "loosely_dict env JUndefined = False"
| "loosely_dict env JNull = False"
| "loosely_dict env (JBool b) = False"
| "loosely_dict env (JNum n) = False"
| "loosely_dict env v = (showObject env v = ''dict'')"

text \<open>A member read out of a dictionary envelope is a part of it.\<close>

lemma size_json_member:
  assumes "truthy (read_prop (read_index (read_prop v k) n) k')"
  shows "size (read_index (read_prop v k) n) < size v"
proof (cases v)
  case (JObject i ps)
  have "size (read_index (obj_get ps k) n) \<le> size (obj_get ps k)"
    by (rule size_read_index)
  also have "\<dots> \<le> size_list (size_prod (\<lambda>x. 0) size) ps"
    by (rule size_obj_get)
  finally show ?thesis using JObject by simp
qed (use assms in \<open>simp_all split: if_splits\<close>)

text \<open>\<^verbatim>\<open>deserialize_json_value(value)\<close>; its \<^verbatim>\<open>for\<close> loop is
  \<open>deserialize_json_value_loop\<close>.\<close>

function deserialize_json_value :: "env \<Rightarrow> jsval \<Rightarrow> exn + props"
and deserialize_json_value_loop :: "env \<Rightarrow> jsval \<Rightarrow> nat \<Rightarrow> props \<Rightarrow> exn + props"
where
  "deserialize_json_value env value = deserialize_json_value_loop env value 0 []"
| "deserialize_json_value_loop env value index result =
     (if nullish value then Inl TypeError
      else (case get_prop (read_prop value ''keys'') ''length'' of
              Inl e \<Rightarrow> Inl e
            | Inr len \<Rightarrow>
                if below index len then
                  (let propName = read_index (read_prop value ''keys'') index
                   in (case get_index (read_prop value ''values'') index of
                         Inl e \<Rightarrow> Inl e
                       | Inr propValue \<Rightarrow>
                           (case get_prop propValue ''type'' of
                              Inl e \<Rightarrow> Inl e
                            | Inr type \<Rightarrow>
                                if truthy type \<and> loosely_dict env type then
                                  (case deserialize_json_value env propValue of
                                     Inl e \<Rightarrow> Inl e
                                   | Inr object \<Rightarrow>
                                       deserialize_json_value_loop env value (Suc index)
                                         (obj_set result (to_string env propName)
                                            (JObject JUndefined object)))
                                else
                                  deserialize_json_value_loop env value (Suc index)
                                    (obj_set result (to_string env propName)
                                       (read_prop propValue ''value'')))))
                else Inr result))"
  by pat_completeness auto
termination
  apply (relation "measures [
     (\<lambda>x. case x of
        Inl (env, v) \<Rightarrow> 2 * size v + 2
      | Inr (env, v, index, result) \<Rightarrow> 2 * size v + 1),
     (\<lambda>x. case x of
        Inl (env, v) \<Rightarrow> 0
      | Inr (env, v, index, result) \<Rightarrow>
          (case read_prop (read_prop v ''keys'') ''length'' of JNum n \<Rightarrow> nat n - index | _ \<Rightarrow> 0))]")
  apply (auto simp: get_index_def get_prop_def split: if_splits jsval.splits)
  subgoal for env v index n
    using size_json_member [of v "''values''" index "''type''"] by simp
  done

declare deserialize_json_value_loop.simps [simp del]

text \<open>The test \<^verbatim>\<open>error.replace\<close> on a truthy \<open>error\<close>: every string has the
  method, a plain object has what it stores under that key.\<close>

fun has_replace :: "jsval \<Rightarrow> bool" where
  "has_replace (JStr s) = True"
| "has_replace (JObject i ps) = truthy (obj_get ps ''replace'')"
| "has_replace v = False"

text \<open>
  The block \<^verbatim>\<open>if (!response || response.error) { ... }\<close> of
  \<^verbatim>\<open>sendRequest\<close>, which always throws: the exception it throws. A response is
  parsed JSON, so no member of it can be called: calling one is a
  \<^verbatim>\<open>TypeError\<close>.
\<close>

definition response_error :: "env \<Rightarrow> string \<Rightarrow> jsval \<Rightarrow> exn" where
  "response_error env command response =
     (let error = (if truthy response then read_prop response ''error'' else response);
          invalid = JStr (''Invalid response for \"'' @ command @ ''\"'')
      in if truthy error \<and> has_replace error then
           (case error of
              JStr s \<Rightarrow>
                (let error = JStr (replace_type_prefix s)
                 in ErrorObject (if truthy error then error else invalid) [])
            | _ \<Rightarrow> TypeError)
         else
           (case get_prop error ''type'' of
              Inl e \<Rightarrow> e
            | Inr type \<Rightarrow>
                if truthy type \<and> type = JStr ''dict'' then
                  (case deserialize_json_value env error of
                     Inl e \<Rightarrow> e
                   | Inr responseError \<Rightarrow>
                       (let message = read_prop response ''message''
                        in if truthy message \<and> message \<noteq> JStr [] then
                             (case message of
                                JStr m \<Rightarrow>
                                  ErrorObject (JStr (replace_type_prefix m)) responseError
                              | _ \<Rightarrow> TypeError)
                           else ErrorObject JUndefined responseError))
                else ErrorObject (if truthy error then error else invalid) []))"

subsection \<open>Session state and transport\<close>

text \<open>
  The module's variables. \<open>persistentCallback\<close> is the set of functions that carry
  the symbol of that name; \<open>timers\<close> are the pending one-shot timers
  (identifier and delay), \<open>nextTimerId\<close> the identifier \<^verbatim>\<open>setTimeout\<close> hands out
  next.
\<close>

record state =
  registeredCallbacks :: "nat list"
  persistentCallback :: "nat set"
  sessionHost :: "string option"
  sessionId :: jsval
  pollTimeoutId :: "nat option"
  pollTimeout :: int
  timers :: "(nat \<times> int) list"
  nextTimerId :: nat

definition initial :: state where
  "initial = \<lparr>registeredCallbacks = [], persistentCallback = {}, sessionHost = None,
     sessionId = JUndefined, pollTimeoutId = None, pollTimeout = 10, timers = [],
     nextTimerId = 0\<rparr>"

text \<open>\<^verbatim>\<open>clearTimeout(pollTimeoutId)\<close>.\<close>

definition clearTimeout :: "state \<Rightarrow> state" where
  "clearTimeout st =
     st\<lparr>timers := filter (\<lambda>t. Some (fst t) \<noteq> pollTimeoutId st) (timers st)\<rparr>"

text \<open>The \<^verbatim>\<open>finally\<close> clause of \<^verbatim>\<open>sendRequest\<close>:
  \<^verbatim>\<open>pollTimeoutId = setTimeout(() => sendRequest('callbacks_poll'), pollTimeout)\<close>.\<close>

definition setTimeout :: "state \<Rightarrow> state" where
  "setTimeout st =
     st\<lparr>timers := (nextTimerId st, pollTimeout st) # timers st,
        pollTimeoutId := Some (nextTimerId st),
        nextTimerId := Suc (nextTimerId st)\<rparr>"

text \<open>
  What the blocking transport does with one request: the server answers with a status
  other than 200 and a body, or with status 200 and a body that \<^verbatim>\<open>JSON.parse\<close>
  turns into a value, or with status 200 and a body that is no JSON.
\<close>

datatype reply = Rejected string | Body jsval | Garbled

fun makeRequest :: "reply \<Rightarrow> exn + jsval" where
  "makeRequest (Rejected responseText) = Inl (ErrorObject (JStr responseText) [])"
| "makeRequest (Body response) = Inr response"
| "makeRequest Garbled = Inl SyntaxError"

subsection \<open>Dispatcher\<close>

text \<open>The update of \<^verbatim>\<open>pollTimeout\<close> after a response has arrived.\<close>

definition poll_backoff :: "jsval \<Rightarrow> string \<Rightarrow> int \<Rightarrow> int" where
  "poll_backoff callback command timeout =
     (if truthy callback \<or> command \<noteq> ''callbacks_poll'' then 10
      else if timeout < 1000 then timeout * 2
      else timeout)"

text \<open>The value a \<^verbatim>\<open>catch\<close> clause binds for an exception.\<close>

fun caught :: "env \<Rightarrow> exn \<Rightarrow> jsval" where
  "caught env (Thrown v) = v"
| "caught env e = errorValue env e"

text \<open>
  The \<^verbatim>\<open>try\<close> block of the callback branch: \<open>Inl\<close> the exception caught, or
  \<open>Inr\<close> the variables \<^verbatim>\<open>result\<close> and \<^verbatim>\<open>error\<close> with the registry
  afterwards.
\<close>

definition try_callback ::
  "env \<Rightarrow> nat list \<Rightarrow> props \<Rightarrow> jsval \<Rightarrow> jsval \<Rightarrow> jsval + (jsval \<times> jsval \<times> nat list)" where
  "try_callback env r data response callback =
     (let realmId = obj_get data ''realmId''
      in case deserialize env realmId r (read_prop response ''this'') of
           Inl e \<Rightarrow> Inl (caught env e)
         | Inr thisObject \<Rightarrow>
             (case deserialize env realmId r (read_prop response ''arguments'') of
                Inl e \<Rightarrow> Inl (caught env e)
              | Inr args \<Rightarrow>
                  (case resolve r callback of
                     JFunction fn \<Rightarrow>
                       (case invoke env fn thisObject args of
                          Throws e \<Rightarrow> Inl e
                        | Returns v \<Rightarrow>
                            (let (result, r') = serialize env realmId v r
                             in Inr (result, JUndefined, r')))
                   | _ \<Rightarrow>
                       Inr (JUndefined,
                            JStr (''Unknown callback id: '' @ to_string env callback), r))))"

text \<open>The \<^verbatim>\<open>catch (e)\<close> clause: the variables \<^verbatim>\<open>error\<close> and
  \<^verbatim>\<open>stack\<close>, unless reading \<^verbatim>\<open>e.message\<close> throws.\<close>

definition catch_callback :: "env \<Rightarrow> jsval \<Rightarrow> exn + (jsval \<times> jsval)" where
  "catch_callback env e =
     (case get_prop e ''message'' of
        Inl x \<Rightarrow> Inl x
      | Inr message \<Rightarrow>
          Inr (if truthy message then message else JStr (to_string env e),
               if truthy (read_prop e ''stack'') then stringify env (read_prop e ''stack'')
               else JUndefined))"

definition callbackCommand :: "string \<Rightarrow> string" where
  "callbackCommand command =
     (if command = ''callbacks_poll'' \<or> command = ''callback_poll_result''
      then ''callback_poll_result'' else ''callback_result'')"

text \<open>The \<^verbatim>\<open>try\<close> statement as a whole: the exception that leaves it, or the
  variables \<^verbatim>\<open>result\<close>, \<^verbatim>\<open>error\<close> and \<^verbatim>\<open>stack\<close> after it with the
  registry.\<close>

definition callback_outcome ::
  "env \<Rightarrow> nat list \<Rightarrow> props \<Rightarrow> jsval \<Rightarrow> jsval
     \<Rightarrow> exn + (jsval \<times> jsval \<times> jsval \<times> nat list)" where
  "callback_outcome env r data response callback =
     (case try_callback env r data response callback of
        Inr (result, error, r') \<Rightarrow> Inr (result, error, JUndefined, r')
      | Inl e \<Rightarrow>
          (case catch_callback env e of
             Inl x \<Rightarrow> Inl x
           | Inr (error, stack) \<Rightarrow> Inr (JUndefined, error, stack, r)))"

text \<open>The callback branch up to the follow-up call: the exception that leaves it, or
  the command and payload of the follow-up request and the registry afterwards.\<close>

definition callback_reply ::
  "env \<Rightarrow> string \<Rightarrow> nat list \<Rightarrow> props \<Rightarrow> jsval \<Rightarrow> jsval
     \<Rightarrow> exn + (string \<times> props \<times> nat list)" where
  "callback_reply env command r data response callback =
     (case callback_outcome env r data response callback of
        Inl x \<Rightarrow> Inl x
      | Inr (result, error, stack, r') \<Rightarrow>
          Inr (callbackCommand command,
               [(''callback'', callback), (''result'', result), (''error'', error),
                (''stack'', stack),
                (''callback_call_counter'', read_prop response ''callback_call_counter'')],
               r'))"

text \<open>How a call of \<^verbatim>\<open>sendRequest\<close> ends: it returns, it throws, or it is still
  blocked in the transport because the server has sent no further reply.\<close>

datatype outcome = Returned jsval | Raised exn | Awaiting

type_synonym request = "string \<times> props"

text \<open>The host of a call: the argument, or \<^verbatim>\<open>sessionHost\<close> when the argument is
  \<^verbatim>\<open>undefined\<close>; \<open>None\<close> when that is falsy.\<close>

definition host_of :: "state \<Rightarrow> string option \<Rightarrow> string option" where
  "host_of st host =
     (case (case host of None \<Rightarrow> sessionHost st | Some h \<Rightarrow> Some h) of
        None \<Rightarrow> None
      | Some h \<Rightarrow> if h = [] then None else Some h)"

text \<open>The request a call sends: its URL and its body
  \<^verbatim>\<open>Object.assign({}, data, sessionId ? { sessionId } : null)\<close>.\<close>

definition request_of :: "state \<Rightarrow> string \<Rightarrow> string \<Rightarrow> props \<Rightarrow> request" where
  "request_of st host command data =
     (''http://'' @ host @ ''/'' @ command,
      objectAssign (objectAssign [] data)
        (if truthy (sessionId st) then [(''sessionId'', sessionId st)] else []))"

text \<open>
  \<^verbatim>\<open>sendRequest(command, data, host)\<close> against the replies the server will give,
  in order. The result is how the call ends, the state then, the replies not consumed and
  the requests sent. The follow-up call of the callback branch is the recursive call.
\<close>

fun sendRequest ::
  "env \<Rightarrow> reply list \<Rightarrow> state \<Rightarrow> string \<Rightarrow> props \<Rightarrow> string option
     \<Rightarrow> outcome \<times> state \<times> reply list \<times> request list" where
  "sendRequest env [] st command data host =
     (case host_of st host of
        None \<Rightarrow>
          (Raised (ErrorObject (JStr ''Must first create RPC session with a valid host'') []),
           setTimeout (clearTimeout st), [], [])
      | Some h \<Rightarrow> (Awaiting, clearTimeout st, [], [request_of st h command data]))"
| "sendRequest env (reply # script) st command data host =
     (case host_of st host of
        None \<Rightarrow>
          (Raised (ErrorObject (JStr ''Must first create RPC session with a valid host'') []),
           setTimeout (clearTimeout st), reply # script, [])
      | Some h \<Rightarrow>
          (let request = request_of st h command data; st0 = clearTimeout st
           in case makeRequest reply of
                Inl e \<Rightarrow> (Raised e, setTimeout st0, script, [request])
              | Inr response \<Rightarrow>
                  (let callback =
                         (if truthy response then read_prop response ''callback'' else response);
                       st1 = st0\<lparr>pollTimeout := poll_backoff callback command (pollTimeout st0)\<rparr>
                   in if \<not> truthy response \<or> truthy (read_prop response ''error'') then
                        (Raised (response_error env command response), setTimeout st1, script,
                         [request])
                      else if \<not> nullish callback then
                        (case callback_reply env command (registeredCallbacks st1) (snd request)
                                response callback of
                           Inl e \<Rightarrow> (Raised e, setTimeout st1, script, [request])
                         | Inr (command', payload, r') \<Rightarrow>
                             (case sendRequest env script (st1\<lparr>registeredCallbacks := r'\<rparr>)
                                     command' payload None of
                                (Awaiting, st2, script', sent) \<Rightarrow>
                                  (Awaiting, st2, script', request # sent)
                              | (ending, st2, script', sent) \<Rightarrow>
                                  (ending, setTimeout st2, script', request # sent)))
                      else
                        (Returned (read_prop response ''result''), setTimeout st1, script,
                         [request]))))"

subsection \<open>Exported operations\<close>

text \<open>\<^verbatim>\<open>createSession(refreshAccessToken, host)\<close>: the function is marked
  persistent, serialized (which registers it) and sent; the session variables are
  assigned when the call returns.\<close>

definition createSession ::
  "env \<Rightarrow> reply list \<Rightarrow> state \<Rightarrow> nat \<Rightarrow> string option
     \<Rightarrow> outcome \<times> state \<times> reply list \<times> request list" where
  "createSession env script st refreshAccessToken host =
     (let st1 = st\<lparr>persistentCallback := insert refreshAccessToken (persistentCallback st)\<rparr>;
          (envelope, r) =
            serialize env JUndefined (JFunction refreshAccessToken) (registeredCallbacks st1);
          st2 = st1\<lparr>registeredCallbacks := r\<rparr>
      in case sendRequest env script st2 ''create_session''
                [(''refreshAccessToken'', envelope)] host of
           (Returned v, st3, script', sent) \<Rightarrow>
             (Returned v, st3\<lparr>sessionId := v, sessionHost := host\<rparr>, script', sent)
         | other \<Rightarrow> other)"

text \<open>\<^verbatim>\<open>clearTestState()\<close>: the request, then the filter over
  \<^verbatim>\<open>registeredCallbacks\<close>, which a throwing request skips.\<close>

definition clearTestState ::
  "env \<Rightarrow> reply list \<Rightarrow> state \<Rightarrow> outcome \<times> state \<times> reply list \<times> request list" where
  "clearTestState env script st =
     (case sendRequest env script st ''clear_test_state'' [] None of
        (Returned v, st', script', sent) \<Rightarrow>
          (Returned JUndefined,
           st'\<lparr>registeredCallbacks :=
                 filter (\<lambda>cb. cb \<in> persistentCallback st') (registeredCallbacks st')\<rparr>,
           script', sent)
      | other \<Rightarrow> other)"

text \<open>\<^verbatim>\<open>callMethod(realmId, id, name, args)\<close>; \<open>args\<close> is \<open>None\<close> for
  \<^verbatim>\<open>undefined\<close>.\<close>

definition callMethod ::
  "env \<Rightarrow> reply list \<Rightarrow> state \<Rightarrow> jsval \<Rightarrow> jsval \<Rightarrow> jsval \<Rightarrow> jsval list option
     \<Rightarrow> outcome \<times> state \<times> reply list \<times> request list" where
  "callMethod env script st realmId id' name args =
     (let (args', r) =
            (case args of
               None \<Rightarrow> (JUndefined, registeredCallbacks st)
             | Some items \<Rightarrow>
                 (let (array, r) = serialize_items env realmId items (registeredCallbacks st)
                  in (JArray JUndefined array, r)))
      in case sendRequest env script (st\<lparr>registeredCallbacks := r\<rparr>) ''call_method''
                [(''realmId'', realmId), (''id'', id'), (''name'', name), (''arguments'', args')]
                None of
           (Returned result, st', script', sent) \<Rightarrow>
             (case deserialize env realmId (registeredCallbacks st') result of
                Inl e \<Rightarrow> (Raised e, st', script', sent)
              | Inr v \<Rightarrow> (Returned v, st', script', sent))
         | other \<Rightarrow> other)"

text \<open>A pending timer fires: it leaves the pending timers and runs
  \<^verbatim>\<open>sendRequest('callbacks_poll')\<close>. A timer that is not pending does nothing.\<close>

definition timer_fires ::
  "env \<Rightarrow> reply list \<Rightarrow> state \<Rightarrow> nat
     \<Rightarrow> outcome \<times> state \<times> reply list \<times> request list" where
  "timer_fires env script st t =
     (if t \<in> set (map fst (timers st)) then
        sendRequest env script (st\<lparr>timers := filter (\<lambda>x. fst x \<noteq> t) (timers st)\<rparr>)
          ''callbacks_poll'' [] None
      else (Returned JUndefined, st, script, []))"

text \<open>A use of the bridge: a dispatch (any exported call), the poll timer firing, a
  method call, a registry reset, a session creation. A sequence of uses runs until one of
  them stays blocked in the transport.\<close>

datatype call =
    Dispatch string props "string option"
  | TimerFires nat
  | CallMethod jsval jsval jsval "jsval list option"
  | ClearTestState
  | CreateSession nat "string option"

fun perform ::
  "env \<Rightarrow> reply list \<Rightarrow> state \<Rightarrow> call
     \<Rightarrow> outcome \<times> state \<times> reply list \<times> request list" where
  "perform env script st (Dispatch command data host) =
     sendRequest env script st command data host"
| "perform env script st (TimerFires t) = timer_fires env script st t"
| "perform env script st (CallMethod realmId id' name args) =
     callMethod env script st realmId id' name args"
| "perform env script st ClearTestState = clearTestState env script st"
| "perform env script st (CreateSession refreshAccessToken host) =
     createSession env script st refreshAccessToken host"

fun run :: "env \<Rightarrow> reply list \<Rightarrow> state \<Rightarrow> call list \<Rightarrow> state" where
  "run env script st [] = st"
| "run env script st (c # cs) =
     (case perform env script st c of
        (Awaiting, st', script', sent) \<Rightarrow> st'
      | (ending, st', script', sent) \<Rightarrow> run env script' st' cs)"

subsection \<open>Notions the properties are stated with\<close>

text \<open>Successive registrations: the keys returned and the registry afterwards.\<close>

fun register_all :: "nat list \<Rightarrow> nat list \<Rightarrow> int list \<times> nat list" where
  "register_all [] r = ([], r)"
| "register_all (f # fs) r =
     (let (key, r1) = registerCallback f r; (keys, r2) = register_all fs r1
      in (key # keys, r2))"

text \<open>The values the round trip is claimed for: built from \<^verbatim>\<open>undefined\<close>,
  primitives, dates, binary buffers, arrays and plain objects (whose keys are distinct, as
  an object's are), with no function anywhere and no remote-reference key on any
  object.\<close>

fun representable :: "jsval \<Rightarrow> bool" where
  "representable JUndefined = True"
| "representable JNull = True"
| "representable (JBool b) = True"
| "representable (JNum n) = True"
| "representable (JStr s) = True"
| "representable (JFunction f) = False"
| "representable (JDate i t) = (i = JUndefined)"
| "representable (JArray i items) = (i = JUndefined \<and> list_all representable items)"
| "representable (JBinary i bytes) = (i = JUndefined)"
| "representable (JObject i ps) =
     (i = JUndefined \<and> distinct (map fst ps) \<and> list_all (\<lambda>p. representable (snd p)) ps)"

text \<open>No object anywhere in the value has an own property named
  \<^verbatim>\<open>__proto__\<close>.\<close>

fun ordinary_keys :: "jsval \<Rightarrow> bool" where
  "ordinary_keys (JArray i items) = list_all ordinary_keys items"
| "ordinary_keys (JObject i ps) =
     (''__proto__'' \<notin> set (map fst ps) \<and> list_all (\<lambda>p. ordinary_keys (snd p)) ps)"
| "ordinary_keys v = True"

text \<open>What the codec needs of \<^verbatim>\<open>./base64\<close>: decoding an encoded buffer gives
  the buffer back.\<close>

definition inverse_base64 :: "env \<Rightarrow> bool" where
  "inverse_base64 env =
     (\<forall>bytes. b64decode env (b64encode env bytes) = Inr (JBinary JUndefined bytes))"

text \<open>An object of any kind, the value under its remote-reference key, and the same
  object without that key.\<close>

fun is_object :: "jsval \<Rightarrow> bool" where
  "is_object (JDate i t) = True"
| "is_object (JArray i items) = True"
| "is_object (JBinary i bytes) = True"
| "is_object (JObject i ps) = True"
| "is_object v = False"

fun handle_of :: "jsval \<Rightarrow> jsval" where
  "handle_of (JDate i t) = i"
| "handle_of (JArray i items) = i"
| "handle_of (JBinary i bytes) = i"
| "handle_of (JObject i ps) = i"
| "handle_of v = JUndefined"


text \<open>The values \<^verbatim>\<open>pollTimeout\<close> takes.\<close>

definition backoff_values :: "int set" where
  "backoff_values = {10, 20, 40, 80, 160, 320, 640, 1280}"

text \<open>Surroundings to run the bridge in: callback 0 returns 5, callback 1 throws an
  \<^verbatim>\<open>Error\<close>-like object, every other callback throws \<^verbatim>\<open>null\<close>; a buffer is
  encoded as itself.\<close>

definition sample_env :: env where
  "sample_env =
     \<lparr>invoke = (\<lambda>fn this args.
          if fn = 0 then Returns (JNum 5)
          else if fn = 1 then
            Throws (JObject JUndefined [(''message'', JStr ''boom''), (''stack'', JStr ''at f'')])
          else Throws JNull),
      b64encode = (\<lambda>bytes. JBinary JUndefined bytes),
      b64decode = (\<lambda>v. Inr v),
      timeValue = (\<lambda>v. 0),
      showObject = (\<lambda>v. ''[object Object]''),
      stringify = (\<lambda>v. v),
      errorValue = (\<lambda>e. JObject JUndefined [(''message'', JStr ''TypeError'')])\<rparr>"

text \<open>An idle poll's reply, and the state after a session has been created and the
  poll timer has fired seven times with nothing to deliver.\<close>

definition idle_reply :: reply where
  "idle_reply = Body (JObject JUndefined [(''result'', JNull)])"

definition seven_idle_polls :: state where
  "seven_idle_polls =
     run sample_env
       (Body (JObject JUndefined [(''result'', JStr ''session'')]) # replicate 7 idle_reply)
       initial
       (CreateSession 0 (Some ''localhost:8082'') # map TimerFires [0, 1, 2, 3, 4, 5, 6])"

text \<open>A session in which a listener was registered after the session's persistent
  callback, and the same after a second session was created with another persistent
  callback.\<close>

definition session_with_listener :: state where
  "session_with_listener =
     run sample_env
       [Body (JObject JUndefined [(''result'', JStr ''first'')]),
        Body (JObject JUndefined [(''result'', JObject JUndefined [(''value'', JNull)])])]
       initial
       [CreateSession 0 (Some ''localhost:8082''),
        CallMethod JNull (JNum 1) (JStr ''addListener'') (Some [JStr ''change'', JFunction 5])]"

definition two_sessions :: state where
  "two_sessions =
     run sample_env
       [Body (JObject JUndefined [(''result'', JStr ''first'')]),
        Body (JObject JUndefined [(''result'', JObject JUndefined [(''value'', JNull)])]),
        Body (JObject JUndefined [(''result'', JStr ''second'')])]
       initial
       [CreateSession 0 (Some ''localhost:8082''),
        CallMethod JNull (JNum 1) (JStr ''addListener'') (Some [JStr ''change'', JFunction 5]),
        CreateSession 6 (Some ''localhost:8082'')]"

text \<open>The generic error that names the command.\<close>

definition invalid_response :: "string \<Rightarrow> exn" where
  "invalid_response command =
     ErrorObject (JStr (''Invalid response for \"'' @ command @ ''\"'')) []"

text \<open>A session with callbacks 0, 1 and 2 registered, and a response that asks for
  one of them to be called.\<close>

definition three_callbacks :: state where
  "three_callbacks =
     run sample_env
       [Body (JObject JUndefined [(''result'', JStr ''first'')]),
        Body (JObject JUndefined [(''result'', JObject JUndefined [(''value'', JNull)])])]
       initial
       [CreateSession 0 (Some ''localhost:8082''),
        CallMethod JNull (JNum 1) (JStr ''addListener'') (Some [JFunction 1, JFunction 2])]"

definition callback_request :: "int \<Rightarrow> jsval" where
  "callback_request handle =
     JObject JUndefined
       [(''callback'', JNum handle), (''this'', JObject JUndefined [(''value'', JNull)]),
        (''arguments'', JObject JUndefined [(''value'', JArray JUndefined [])]),
        (''callback_call_counter'', JNum 3)]"

text \<open>
  A property read \<^verbatim>\<open>e.k\<close> on the error
  \<^verbatim>\<open>Object.assign(new Error(arg), fields)\<close>: the constructor gives the object
  an own \<^verbatim>\<open>message\<close> unless \<open>arg\<close> is \<^verbatim>\<open>undefined\<close>, the assignment
  then sets every field, one named \<^verbatim>\<open>message\<close> included, and a
  \<^verbatim>\<open>message\<close> that is not an own property is the empty string of
  \<^verbatim>\<open>Error.prototype\<close>.
\<close>

definition error_property :: "env \<Rightarrow> jsval \<Rightarrow> props \<Rightarrow> string \<Rightarrow> jsval" where
  "error_property env arg extra k =
     (let own = objectAssign
                  (if arg = JUndefined then [] else [(''message'', JStr (to_string env arg))])
                  extra
      in if k \<in> set (map fst own) then obj_get own k
         else if k = ''message'' then JStr [] else JUndefined)"

text \<open>
  The fields of a structured error as \<^verbatim>\<open>deserialize_json_value\<close> reads them off
  the wire: a member is \<^verbatim>\<open>{value: v}\<close>, or again a dictionary
  \<^verbatim>\<open>{type: 'dict', keys, values}\<close>. \<open>dict_envelope\<close> is the wire form,
  \<open>dict_value\<close> the value it stands for, and a dictionary is well formed when it has
  as many values as keys and its keys are distinct and none is \<^verbatim>\<open>__proto__\<close>, at
  every level.
\<close>

datatype field = Leaf jsval | Dict "string list" "field list"

fun dict_envelope :: "field \<Rightarrow> jsval" where
  "dict_envelope (Leaf v) = JObject JUndefined [(''value'', v)]"
| "dict_envelope (Dict ks fs) =
     JObject JUndefined
       [(''type'', JStr ''dict''), (''keys'', JArray JUndefined (map JStr ks)),
        (''values'', JArray JUndefined (map dict_envelope fs))]"

fun dict_value :: "field \<Rightarrow> jsval" where
  "dict_value (Leaf v) = v"
| "dict_value (Dict ks fs) = JObject JUndefined (zip ks (map dict_value fs))"

fun dict_well_formed :: "field \<Rightarrow> bool" where
  "dict_well_formed (Leaf v) = True"
| "dict_well_formed (Dict ks fs) =
     (length fs = length ks \<and> distinct ks \<and> ''__proto__'' \<notin> set ks
      \<and> list_all dict_well_formed fs)"

section \<open>Properties\<close>

subsection \<open>Registry\<close>

lemma indexOf_ge: "- 1 \<le> indexOf xs x"
  by (induction xs) (auto simp: Let_def)

lemma indexOf_member: "(0 \<le> indexOf xs x) = (x \<in> set xs)"
  by (induction xs) (auto simp: Let_def)

lemma indexOf_absent: "x \<notin> set xs \<Longrightarrow> indexOf xs x = - 1"
  using indexOf_ge [of xs x] indexOf_member [of xs x] by linarith

lemma indexOf_nth:
  "x \<in> set xs \<Longrightarrow> nat (indexOf xs x) < length xs \<and> xs ! nat (indexOf xs x) = x"
proof (induction xs)
  case (Cons y ys)
  show ?case
  proof (cases "y = x")
    case False
    with Cons.prems have mem: "x \<in> set ys" by simp
    then have ge: "0 \<le> indexOf ys x" by (simp add: indexOf_member)
    from Cons.IH [OF mem] ge False show ?thesis
      by (simp add: Let_def nat_add_distrib)
  qed simp
qed simp

lemma indexOf_append: "x \<in> set xs \<Longrightarrow> indexOf (xs @ ys) x = indexOf xs x"
  by (induction xs) (auto simp: Let_def indexOf_member)

lemma indexOf_fresh: "x \<notin> set xs \<Longrightarrow> indexOf (xs @ [x]) x = int (length xs)"
  by (induction xs) (auto simp: Let_def)

lemma registerCallback_key:
  "fst (registerCallback f r) = indexOf (snd (registerCallback f r)) f"
  by (cases "f \<in> set r")
    (simp_all add: registerCallback_def Let_def indexOf_member indexOf_absent indexOf_fresh)

lemma registerCallback_member: "f \<in> set (snd (registerCallback f r))"
  by (simp add: registerCallback_def Let_def indexOf_member)

lemma registerCallback_extends: "\<exists>ys. snd (registerCallback f r) = r @ ys"
  by (simp add: registerCallback_def Let_def)

lemma register_all_extends: "\<exists>ys. snd (register_all fs r) = r @ ys"
proof (induction fs arbitrary: r)
  case (Cons f fs)
  obtain ys where 1: "snd (registerCallback f r) = r @ ys"
    using registerCallback_extends by blast
  obtain zs where 2: "snd (register_all fs (snd (registerCallback f r))) = snd (registerCallback f r) @ zs"
    using Cons.IH by blast
  show ?case using 1 2 by (simp add: split_def Let_def)
qed simp

lemma register_all_length: "length (fst (register_all fs r)) = length fs"
  by (induction fs arbitrary: r) (simp_all add: split_def Let_def)

lemma register_all_key:
  "a < length fs \<Longrightarrow>
     fs ! a \<in> set (snd (register_all fs r)) \<and>
     fst (register_all fs r) ! a = indexOf (snd (register_all fs r)) (fs ! a)"
proof (induction fs arbitrary: r a)
  case (Cons f fs)
  let ?r1 = "snd (registerCallback f r)"
  obtain zs where ext: "snd (register_all fs ?r1) = ?r1 @ zs"
    using register_all_extends by blast
  show ?case
  proof (cases a)
    case 0
    have "f \<in> set ?r1" by (rule registerCallback_member)
    then show ?thesis using 0 ext registerCallback_key [of f r]
      by (simp add: split_def Let_def indexOf_append)
  next
    case (Suc m)
    with Cons.prems have "m < length fs" by simp
    from Cons.IH [OF this, of ?r1] Suc show ?thesis
      by (simp add: split_def Let_def)
  qed
qed simp

subsection \<open>Codec\<close>

lemma deserialize_object:
  "deserialize env realmId r (JObject i ps) =
     (case handler_of env (obj_get ps ''type'') of
        Some DataConverter \<Rightarrow>
          (case b64decode env (obj_get ps ''value'') of
             Inl e \<Rightarrow> Inl (Thrown e)
           | Inr buffer \<Rightarrow> Inr buffer)
      | Some DateConverter \<Rightarrow> Inr (newDate env (obj_get ps ''value''))
      | Some DictConverter \<Rightarrow>
          (case get_prop (obj_get ps ''keys'') ''length'' of
             Inl e \<Rightarrow> Inl e
           | Inr len \<Rightarrow>
               (case deserializeDict_loop env realmId r (obj_get ps ''keys'')
                       (obj_get ps ''values'') len 0 [] of
                  Inl e \<Rightarrow> Inl e
                | Inr object \<Rightarrow> Inr (JObject JUndefined object)))
      | Some FunctionConverter \<Rightarrow> Inr (resolve r (obj_get ps ''value''))
      | None \<Rightarrow>
          (case obj_get ps ''value'' of
             JArray i items \<Rightarrow>
               (case deserialize_items env realmId r items of
                  Inl e \<Rightarrow> Inl e
                | Inr array \<Rightarrow> Inr (JArray JUndefined array))
           | value \<Rightarrow> Inr value))"
  by (simp add: deserialize.simps [of env realmId r "JObject i ps"] nullish_def Let_def
      split: option.split converter.split)

lemma handlers [simp]:
  "handler_of env JUndefined = None"
  "handler_of env (JStr UNDEFINED) = None"
  "handler_of env (JStr FUNCTION) = Some FunctionConverter"
  "handler_of env (JStr DICT) = Some DictConverter"
  "handler_of env (JStr DATE) = Some DateConverter"
  "handler_of env (JStr DATA) = Some DataConverter"
  by (simp_all add: handler_of_def typeConverters_def UNDEFINED_def FUNCTION_def DICT_def
      DATE_def DATA_def)

lemma deserialize_items_nth:
  "deserialize_items env realmId r xs = Inr vs \<Longrightarrow>
     length vs = length xs \<and> (\<forall>j < length xs. deserialize env realmId r (xs ! j) = Inr (vs ! j))"
proof (induction xs arbitrary: vs)
  case (Cons x xs)
  then obtain v ws where v: "deserialize env realmId r x = Inr v"
    and ws: "deserialize_items env realmId r xs = Inr ws" and vs: "vs = v # ws"
    by (auto split: sum.splits)
  from Cons.IH [OF ws] v vs show ?case by (auto simp: nth_Cons split: nat.splits)
qed simp

lemma obj_set_fresh:
  "k \<notin> fst ` set ps \<Longrightarrow> k \<noteq> ''__proto__'' \<Longrightarrow> obj_set ps k v = ps @ [(k, v)]"
  by (induction ps) auto

lemma assign_distinct:
  "distinct (map fst qs) \<Longrightarrow> fst ` set ps \<inter> fst ` set qs = {} \<Longrightarrow>
     ''__proto__'' \<notin> fst ` set qs \<Longrightarrow>
     foldl (\<lambda>object (k, v). obj_set object k v) ps qs = ps @ qs"
proof (induction qs arbitrary: ps)
  case (Cons q qs)
  obtain k v where q: "q = (k, v)" by (cases q)
  have fresh: "k \<notin> fst ` set ps" using Cons.prems(2) q by auto
  have plain: "k \<noteq> ''__proto__''" using Cons.prems(3) q by auto
  have "fst ` set (ps @ [(k, v)]) \<inter> fst ` set qs = {}"
    using Cons.prems q by (auto simp: image_iff)
  with Cons.IH [of "ps @ [(k, v)]"] Cons.prems(1,3) q fresh plain show ?case
    by (simp add: obj_set_fresh)
qed simp

lemma dict_loop:
  assumes "length envs = length ks" and "length vs = length ks"
    and "\<forall>j < length ks. deserialize env realmId r (envs ! j) = Inr (vs ! j)"
  shows "i \<le> length ks \<Longrightarrow>
     deserializeDict_loop env realmId r (JArray a (map JStr ks)) (JArray b envs)
       (JNum (int (length ks))) i object =
     Inr (foldl (\<lambda>object (k, v). obj_set object k v) object (drop i (zip ks vs)))"
proof (induction "length ks - i" arbitrary: i object)
  case 0
  then show ?case using assms
    by (simp add: deserializeDict_loop.simps [of _ _ _ _ _ _ i])
next
  case (Suc n)
  then have lt: "i < length ks" by simp
  have d: "drop i (zip ks vs) = (ks ! i, vs ! i) # drop (Suc i) (zip ks vs)"
    using lt assms by (simp add: Cons_nth_drop_Suc [symmetric])
  have n: "n = length ks - Suc i" using Suc.hyps(2) by simp
  from Suc.hyps(1) [OF n, of "obj_set object (ks ! i) (vs ! i)"] lt assms d show ?case
    by (simp add: deserializeDict_loop.simps [of _ _ _ _ _ _ i] get_index_def nullish_def)
qed

lemma zip_fst_snd: "zip (map fst ps) (map snd ps) = ps"
  by (induction ps) auto

lemma roundtrip_all:
  "(inverse_base64 env \<and> representable v \<and> ordinary_keys v \<longrightarrow>
      snd (serialize env realmId v r) = r \<and>
      deserialize env realmId' r' (fst (serialize env realmId v r)) = Inr v)"
  "(inverse_base64 env \<and> list_all representable items \<and> list_all ordinary_keys items \<longrightarrow>
      snd (serialize_items env realmId items r) = r \<and>
      deserialize_items env realmId' r' (fst (serialize_items env realmId items r)) = Inr items)"
  "(inverse_base64 env \<and> list_all (\<lambda>p. representable (snd p)) ps
      \<and> list_all (\<lambda>p. ordinary_keys (snd p)) ps \<longrightarrow>
      snd (serialize_props env realmId ps r) = r \<and>
      deserialize_items env realmId' r' (fst (serialize_props env realmId ps r)) = Inr (map snd ps))"
proof (induction env realmId v r and env realmId items r and env realmId ps r
    rule: serialize_serialize_items_serialize_props.induct)
  case (10 env realmId id' ps r)
  show ?case
  proof
    assume "inverse_base64 env \<and> representable (JObject id' ps) \<and> ordinary_keys (JObject id' ps)"
    then have dec: "inverse_base64 env" and rep: "representable (JObject id' ps)"
      and ord: "ordinary_keys (JObject id' ps)"
      by simp_all
    let ?E = "fst (serialize_props env realmId ps r)"
    have id': "id' = JUndefined" and dist: "distinct (map fst ps)"
      and all: "list_all (\<lambda>p. representable (snd p)) ps"
      using rep by simp_all
    have plain: "''__proto__'' \<notin> fst ` set ps"
      and all': "list_all (\<lambda>p. ordinary_keys (snd p)) ps"
      using ord by simp_all
    have reg: "snd (serialize_props env realmId ps r) = r"
      and items: "deserialize_items env realmId' r' ?E = Inr (map snd ps)"
      using "10.IH" all all' id' dec by simp_all
    have len: "length ?E = length (map fst ps)"
      and each: "\<forall>j < length (map fst ps).
        deserialize env realmId' r' (?E ! j) = Inr (map snd ps ! j)"
      using deserialize_items_nth [OF items] by simp_all
    have keys: "map (\<lambda>p. JStr (fst p)) ps = map JStr (map fst ps)"
      by simp
    have "deserializeDict_loop env realmId' r' (JArray JUndefined (map JStr (map fst ps)))
        (JArray JUndefined ?E) (JNum (int (length (map fst ps)))) 0 [] =
      Inr (foldl (\<lambda>object (k, v). obj_set object k v) [] (drop 0 (zip (map fst ps) (map snd ps))))"
      by (rule dict_loop [OF len _ each]) simp_all
    also have "\<dots> = Inr ps"
      using assign_distinct [OF dist _ plain, of "[]"] by (simp add: zip_fst_snd)
    finally have loop: "deserializeDict_loop env realmId' r' (JArray JUndefined (map JStr (map fst ps)))
        (JArray JUndefined ?E) (JNum (int (length ps))) 0 [] = Inr ps"
      by simp
    show "snd (serialize env realmId (JObject id' ps) r) = r \<and>
      deserialize env realmId' r' (fst (serialize env realmId (JObject id' ps) r)) = Inr (JObject id' ps)"
      using reg loop id' unfolding keys [symmetric]
      by (simp add: deserialize_object split_def get_prop_def nullish_def)
  qed
next
  case (12 env realmId item items r)
  show ?case
  proof
    assume "inverse_base64 env \<and> list_all representable (item # items)
      \<and> list_all ordinary_keys (item # items)"
    then have dec: "inverse_base64 env" and item: "representable item" "ordinary_keys item"
      and rest: "list_all representable items" "list_all ordinary_keys items"
      by simp_all
    have 1: "snd (serialize env realmId item r) = r"
      "deserialize env realmId' r' (fst (serialize env realmId item r)) = Inr item"
      using "12.IH"(1) dec item by simp_all
    have 2: "snd (serialize_items env realmId items r) = r"
      "deserialize_items env realmId' r' (fst (serialize_items env realmId items r)) = Inr items"
      using "12.IH"(2) [OF refl prod.collapse] dec rest 1(1)
      by simp_all
    show "snd (serialize_items env realmId (item # items) r) = r \<and>
      deserialize_items env realmId' r' (fst (serialize_items env realmId (item # items) r)) =
      Inr (item # items)"
      using 1 2 by (simp add: split_def)
  qed
next
  case (14 env realmId key v ps r)
  show ?case
  proof
    assume "inverse_base64 env \<and> list_all (\<lambda>p. representable (snd p)) ((key, v) # ps)
      \<and> list_all (\<lambda>p. ordinary_keys (snd p)) ((key, v) # ps)"
    then have dec: "inverse_base64 env" and item: "representable v" "ordinary_keys v"
      and rest: "list_all (\<lambda>p. representable (snd p)) ps"
        "list_all (\<lambda>p. ordinary_keys (snd p)) ps"
      by simp_all
    have 1: "snd (serialize env realmId v r) = r"
      "deserialize env realmId' r' (fst (serialize env realmId v r)) = Inr v"
      using "14.IH"(1) dec item by simp_all
    have 2: "snd (serialize_props env realmId ps r) = r"
      "deserialize_items env realmId' r' (fst (serialize_props env realmId ps r)) = Inr (map snd ps)"
      using "14.IH"(2) [OF refl prod.collapse] dec rest 1(1)
      by simp_all
    show "snd (serialize_props env realmId ((key, v) # ps) r) = r \<and>
      deserialize_items env realmId' r' (fst (serialize_props env realmId ((key, v) # ps) r)) =
      Inr (map snd ((key, v) # ps))"
      using 1 2 by (simp add: split_def)
  qed
qed (auto simp: deserialize_object split_def Let_def inverse_base64_def)

text \<open>
  The round trip of the codec. For every representable value \<open>v\<close> (no function and no
  remote-reference key anywhere in it) none of whose objects has a key
  \<^verbatim>\<open>__proto__\<close>, deserializing what \<^verbatim>\<open>serialize\<close> returns for \<open>v\<close>, in the
  same context and with the registry as \<^verbatim>\<open>serialize\<close> left it, returns \<open>v\<close>; the
  base64 helpers are assumed to invert each other.
\<close>

lemma serialize_roundtrip:
  assumes "representable v" and "ordinary_keys v" and "inverse_base64 env"
  shows "deserialize env contextId (snd (serialize env contextId v r))
           (fst (serialize env contextId v r)) = Inr v"
  using roundtrip_all(1) [of env v contextId r contextId r] assms by simp

lemma inverse_base64_sample: "inverse_base64 sample_env"
  by (simp add: inverse_base64_def sample_env_def)

lemma serialize_roundtrip_example:
  "deserialize sample_env JNull [3]
     (fst (serialize sample_env JNull
        (JObject JUndefined
           [(''when'', JDate JUndefined 5),
            (''list'', JArray JUndefined [JNum 1, JStr ''x'', JUndefined, JNull, JBool True]),
            (''raw'', JBinary JUndefined [1, 2])]) [3]))
   = Inr (JObject JUndefined
           [(''when'', JDate JUndefined 5),
            (''list'', JArray JUndefined [JNum 1, JStr ''x'', JUndefined, JNull, JBool True]),
            (''raw'', JBinary JUndefined [1, 2])])"
  by code_simp

text \<open>
  Claim C1 at a plain object with an own property \<^verbatim>\<open>__proto__\<close> (as
  \<^verbatim>\<open>JSON.parse('{"__proto__": 1}')\<close> builds one): the value is representable,
  \<^verbatim>\<open>serialize\<close> lists the key, and \<^verbatim>\<open>deserializeDict\<close> assigns it to a fresh
  object, which leaves that object without the property. The round trip returns the
  empty object.
\<close>

theorem roundtrip_loses_proto_key:
  "representable (JObject JUndefined [(''__proto__'', JNum 1)])
   \<and> inverse_base64 sample_env
   \<and> fst (serialize sample_env JNull (JObject JUndefined [(''__proto__'', JNum 1)]) []) =
       JObject JUndefined
         [(''type'', JStr ''dict''), (''keys'', JArray JUndefined [JStr ''__proto__'']),
          (''values'', JArray JUndefined [JObject JUndefined [(''value'', JNum 1)]])]
   \<and> deserialize sample_env JNull []
        (fst (serialize sample_env JNull (JObject JUndefined [(''__proto__'', JNum 1)]) []))
       = Inr (JObject JUndefined [])"
proof -
  have "fst (serialize sample_env JNull (JObject JUndefined [(''__proto__'', JNum 1)]) []) =
       JObject JUndefined
         [(''type'', JStr ''dict''), (''keys'', JArray JUndefined [JStr ''__proto__'']),
          (''values'', JArray JUndefined [JObject JUndefined [(''value'', JNum 1)]])]"
    by code_simp
  moreover have "deserialize sample_env JNull []
        (fst (serialize sample_env JNull (JObject JUndefined [(''__proto__'', JNum 1)]) []))
       = Inr (JObject JUndefined [])"
    by code_simp
  ultimately show ?thesis using inverse_base64_sample by simp
qed

text \<open>A value with a truthy remote-reference key is passed by reference.\<close>

lemma serialize_remote_reference:
  "is_object v \<Longrightarrow> truthy (handle_of v) \<Longrightarrow>
     serialize env realmId v r = (JObject JUndefined [(''id'', handle_of v)], r)"
  by (cases v) simp_all



subsection \<open>What a dispatch keeps\<close>

lemma serialize_extends:
  "\<exists>ys. snd (serialize env realmId v r) = r @ ys"
  "\<exists>ys. snd (serialize_items env realmId items r) = r @ ys"
  "\<exists>ys. snd (serialize_props env realmId ps r) = r @ ys"
proof (induction env realmId v r and env realmId items r and env realmId ps r
    rule: serialize_serialize_items_serialize_props.induct)
  case (2 env realmId f r)
  then show ?case using registerCallback_extends [of f r] by (simp add: split_def Let_def)
next
  case (12 env realmId item items r)
  obtain ys where 1: "snd (serialize env realmId item r) = r @ ys"
    using "12.IH"(1) by blast
  obtain zs where 2: "snd (serialize_items env realmId items (snd (serialize env realmId item r))) =
      snd (serialize env realmId item r) @ zs"
    using "12.IH"(2) [OF refl prod.collapse] by blast
  show ?case using 1 2 by (simp add: split_def)
next
  case (14 env realmId key v ps r)
  obtain ys where 1: "snd (serialize env realmId v r) = r @ ys"
    using "14.IH"(1) by blast
  obtain zs where 2: "snd (serialize_props env realmId ps (snd (serialize env realmId v r))) =
      snd (serialize env realmId v r) @ zs"
    using "14.IH"(2) [OF refl prod.collapse] by blast
  show ?case using 1 2 by (simp add: split_def)
qed (auto simp: split_def Let_def)

lemma try_callback_extends:
  "try_callback env r data response callback = Inr (result, error, r') \<Longrightarrow> \<exists>ys. r' = r @ ys"
  using serialize_extends(1) [of env "obj_get data ''realmId''" _ r]
  by (auto simp: try_callback_def Let_def split_def
      split: sum.splits jsval.splits completion.splits)

lemma callback_reply_extends:
  "callback_reply env command r data response callback = Inr (command', payload, r') \<Longrightarrow>
     \<exists>ys. r' = r @ ys"
  using try_callback_extends [of env r data response callback]
  by (auto simp: callback_reply_def callback_outcome_def Let_def split: sum.splits prod.splits)

lemma sendRequest_invariant:
  assumes clear: "\<And>st. Q st \<Longrightarrow> Q (clearTimeout st)"
    and arm: "\<And>st. Q st \<Longrightarrow> Q (setTimeout st)"
    and backoff: "\<And>st c command. Q st \<Longrightarrow>
        Q (st\<lparr>pollTimeout := poll_backoff c command (pollTimeout st)\<rparr>)"
    and grow: "\<And>st ys. Q st \<Longrightarrow> Q (st\<lparr>registeredCallbacks := registeredCallbacks st @ ys\<rparr>)"
  shows "Q st \<Longrightarrow> Q (fst (snd (sendRequest env script st command data host)))"
proof (induction script arbitrary: st command data host)
  case Nil
  then show ?case by (auto split: option.split intro: clear arm)
next
  case (Cons reply script)
  show ?case
  proof (cases "host_of st host")
    case None
    then show ?thesis using Cons.prems by (auto intro: clear arm)
  next
    case (Some h)
    show ?thesis
    proof (cases "makeRequest reply")
      case (Inl e)
      then show ?thesis using Some Cons.prems by (auto intro: clear arm)
    next
      case (Inr response)
      define callback where
        "callback = (if truthy response then read_prop response ''callback'' else response)"
      define st1 where
        "st1 = (clearTimeout st)\<lparr>pollTimeout :=
           poll_backoff callback command (pollTimeout (clearTimeout st))\<rparr>"
      have Q1: "Q st1" unfolding st1_def by (intro backoff clear Cons.prems)
      show ?thesis
      proof (cases "\<not> truthy response \<or> truthy (read_prop response ''error'')")
        case True
        then show ?thesis using Some Inr Q1 arm [OF Q1]
          by (auto simp: Let_def st1_def callback_def)
      next
        case noerr: False
        show ?thesis
        proof (cases "nullish callback")
          case True
          then show ?thesis using Some Inr noerr arm [OF Q1]
            by (auto simp: Let_def st1_def callback_def)
        next
          case False
          show ?thesis
          proof (cases "callback_reply env command (registeredCallbacks st1)
              (snd (request_of st h command data)) response callback")
            case (Inl e)
            then show ?thesis using Some Inr noerr False arm [OF Q1]
              by (auto simp: Let_def st1_def callback_def)
          next
            case reply: (Inr triple)
            obtain command' payload r' where triple: "triple = (command', payload, r')"
              by (cases triple)
            obtain ys where r': "r' = registeredCallbacks st1 @ ys"
              using callback_reply_extends reply triple by blast
            have Q2: "Q (st1\<lparr>registeredCallbacks := r'\<rparr>)"
              unfolding r' by (rule grow [OF Q1])
            have Q3: "Q (fst (snd (sendRequest env script (st1\<lparr>registeredCallbacks := r'\<rparr>)
                command' payload None)))"
              by (rule Cons.IH [OF Q2])
            show ?thesis using Some Inr noerr False reply triple Q3 arm [OF Q3]
              by (auto simp: Let_def st1_def callback_def split: prod.split outcome.split)
          qed
        qed
      qed
    qed
  qed
qed

lemma sendRequest_persistentCallback:
  "persistentCallback (fst (snd (sendRequest env script st command data host))) =
     persistentCallback st"
  by (rule sendRequest_invariant [where Q = "\<lambda>s. persistentCallback s = persistentCallback st"])
    (simp_all add: clearTimeout_def setTimeout_def)

lemma sendRequest_registry_extends:
  "\<exists>added. registeredCallbacks (fst (snd (sendRequest env script st command data host))) =
     registeredCallbacks st @ added"
  by (rule sendRequest_invariant
      [where Q = "\<lambda>s. \<exists>added. registeredCallbacks s = registeredCallbacks st @ added"])
    (auto simp: clearTimeout_def setTimeout_def)

lemma perform_registry_extends:
  assumes "c \<noteq> ClearTestState"
  shows "\<exists>ys. registeredCallbacks (fst (snd (perform env script st c))) =
     registeredCallbacks st @ ys"
proof (cases c)
  case (Dispatch command data host)
  then show ?thesis using sendRequest_registry_extends [of env script st] by simp
next
  case (TimerFires t)
  obtain ys where "registeredCallbacks (fst (snd (sendRequest env script
      (st\<lparr>timers := filter (\<lambda>x. fst x \<noteq> t) (timers st)\<rparr>) ''callbacks_poll'' [] None))) =
      registeredCallbacks st @ ys"
    using sendRequest_registry_extends
      [of env script "st\<lparr>timers := filter (\<lambda>x. fst x \<noteq> t) (timers st)\<rparr>"
        "''callbacks_poll''" "[]" None]
    by auto
  then show ?thesis using TimerFires by (simp add: timer_fires_def)
next
  case (CallMethod realmId id' name args)
  define r where "r = (case args of None \<Rightarrow> registeredCallbacks st
    | Some items \<Rightarrow> snd (serialize_items env realmId items (registeredCallbacks st)))"
  define args' where "args' = (case args of None \<Rightarrow> JUndefined
    | Some items \<Rightarrow>
        JArray JUndefined (fst (serialize_items env realmId items (registeredCallbacks st))))"
  define data where "data = [(''realmId'', realmId), (''id'', id'), (''name'', name),
    (''arguments'', args')]"
  obtain ys where ys: "r = registeredCallbacks st @ ys"
    using serialize_extends(2) [of env realmId _ "registeredCallbacks st"]
    by (cases args) (auto simp: r_def)
  obtain out st' script' sent where s: "sendRequest env script (st\<lparr>registeredCallbacks := r\<rparr>)
      ''call_method'' data None = (out, st', script', sent)"
    by (cases "sendRequest env script (st\<lparr>registeredCallbacks := r\<rparr>)
      ''call_method'' data None") auto
  have "\<exists>zs. registeredCallbacks st' = r @ zs"
    using sendRequest_registry_extends [of env script "st\<lparr>registeredCallbacks := r\<rparr>"
        "''call_method''" data None] s
    by simp
  then obtain zs where zs: "registeredCallbacks st' = registeredCallbacks st @ ys @ zs"
    using ys by auto
  have "fst (snd (callMethod env script st realmId id' name args)) = st'"
    using s
    by (cases args; cases out)
      (auto simp: callMethod_def r_def args'_def data_def split_def Let_def split: sum.split)
  then show ?thesis using CallMethod zs by simp
next
  case ClearTestState
  then show ?thesis using assms by simp
next
  case (CreateSession f host)
  obtain ys where ys: "snd (serialize env JUndefined (JFunction f) (registeredCallbacks st)) =
      registeredCallbacks st @ ys"
    using serialize_extends(1) by blast
  define st2 where "st2 = st\<lparr>persistentCallback := insert f (persistentCallback st),
    registeredCallbacks := registeredCallbacks st @ ys\<rparr>"
  obtain zs where "registeredCallbacks (fst (snd (sendRequest env script st2 ''create_session''
      [(''refreshAccessToken'', fst (serialize env JUndefined (JFunction f) (registeredCallbacks st)))]
      host))) = registeredCallbacks st2 @ zs"
    using sendRequest_registry_extends by blast
  then show ?thesis using CreateSession ys
    by (auto simp: createSession_def st2_def Let_def split_def split: prod.split outcome.split)
qed

lemma run_registry_extends:
  "ClearTestState \<notin> set calls \<Longrightarrow>
     \<exists>ys. registeredCallbacks (run env script st calls) = registeredCallbacks st @ ys"
proof (induction calls arbitrary: st script)
  case (Cons c cs)
  then have c: "c \<noteq> ClearTestState" and cs: "ClearTestState \<notin> set cs" by auto
  obtain ys where ys: "registeredCallbacks (fst (snd (perform env script st c))) =
      registeredCallbacks st @ ys"
    using perform_registry_extends [OF c] by blast
  obtain out st' script' sent where p: "perform env script st c = (out, st', script', sent)"
    by (cases "perform env script st c") auto
  obtain zs where "registeredCallbacks (run env script' st' cs) = registeredCallbacks st' @ zs"
    using Cons.IH [OF cs] by blast
  then show ?case using ys p by (cases out) auto
qed simp

subsection \<open>Registered keys\<close>

lemma registered_key_kept:
  assumes "f \<in> set r"
  shows "resolve (r @ ys) (JNum (indexOf r f)) = JFunction f"
    and "fst (registerCallback f (r @ ys)) = indexOf r f"
proof -
  have n: "nat (indexOf r f) < length r" "r ! nat (indexOf r f) = f"
    using indexOf_nth [OF assms] by simp_all
  have ge: "0 \<le> indexOf r f" using assms by (simp add: indexOf_member)
  show "resolve (r @ ys) (JNum (indexOf r f)) = JFunction f"
    using n ge by (simp add: nth_append)
  have "0 \<le> indexOf (r @ ys) f" using assms by (simp add: indexOf_member)
  then show "fst (registerCallback f (r @ ys)) = indexOf r f"
    using assms by (simp add: registerCallback_def Let_def indexOf_append)
qed

text \<open>
  Claim C5, as the code has it. In any sequence of registrations, from any registry, two
  registrations return the same key exactly when they register the same function (the
  same function twice gives the same index, two distinct functions give distinct
  indices). After any later uses of the bridge with no \<^verbatim>\<open>clearTestState\<close> among
  them (dispatches, polls, method calls and session creations, which register further
  functions), the key a registration returned still resolves to its function, and
  registering the function again returns that key.
\<close>

theorem register_same_and_distinct:
  assumes "a < length fs" and "b < length fs"
    and "registeredCallbacks st = snd (register_all fs r)"
    and "ClearTestState \<notin> set calls"
  shows "(fst (register_all fs r) ! a = fst (register_all fs r) ! b) = (fs ! a = fs ! b)
    \<and> resolve (registeredCallbacks (run env script st calls))
        (JNum (fst (register_all fs r) ! a)) = JFunction (fs ! a)
    \<and> fst (registerCallback (fs ! a) (registeredCallbacks (run env script st calls))) =
        fst (register_all fs r) ! a"
proof -
  let ?R = "snd (register_all fs r)"
  have A: "fs ! a \<in> set ?R" "fst (register_all fs r) ! a = indexOf ?R (fs ! a)"
    using register_all_key [OF assms(1), of r] by simp_all
  have B: "fs ! b \<in> set ?R" "fst (register_all fs r) ! b = indexOf ?R (fs ! b)"
    using register_all_key [OF assms(2), of r] by simp_all
  have na: "?R ! nat (indexOf ?R (fs ! a)) = fs ! a"
    using indexOf_nth [OF A(1)] by simp
  have nb: "?R ! nat (indexOf ?R (fs ! b)) = fs ! b"
    using indexOf_nth [OF B(1)] by simp
  have same: "(indexOf ?R (fs ! a) = indexOf ?R (fs ! b)) = (fs ! a = fs ! b)"
    using na nb by metis
  obtain ys where ys: "registeredCallbacks (run env script st calls) = ?R @ ys"
    using run_registry_extends [OF assms(4), of env script st] assms(3) by auto
  show ?thesis
    using same registered_key_kept [OF A(1), of ys] A(2) B(2) ys by simp
qed

theorem register_same_and_distinct_witness:
  "registeredCallbacks (initial\<lparr>registeredCallbacks := [4, 7, 9]\<rparr>) = snd (register_all [7, 9, 7] [4])
    \<and> ClearTestState \<notin> set [CallMethod JNull (JNum 1) (JStr ''addListener'') (Some [JFunction 5])]
    \<and> fst (register_all [7, 9, 7] [4]) = [1, 2, 1]
    \<and> registeredCallbacks (run sample_env [] (initial\<lparr>registeredCallbacks := [4, 7, 9]\<rparr>)
         [CallMethod JNull (JNum 1) (JStr ''addListener'') (Some [JFunction 5])]) = [4, 7, 9, 5]
    \<and> (fst (register_all [7, 9, 7] [4]) ! 0 = fst (register_all [7, 9, 7] [4]) ! 2)
        = ([7, 9, 7] ! 0 = [7, 9, 7::nat] ! 2)
    \<and> resolve (registeredCallbacks (run sample_env [] (initial\<lparr>registeredCallbacks := [4, 7, 9]\<rparr>)
         [CallMethod JNull (JNum 1) (JStr ''addListener'') (Some [JFunction 5])]))
        (JNum (fst (register_all [7, 9, 7] [4]) ! 0)) = JFunction ([7, 9, 7] ! 0)
    \<and> fst (registerCallback ([7, 9, 7] ! 0)
         (registeredCallbacks (run sample_env [] (initial\<lparr>registeredCallbacks := [4, 7, 9]\<rparr>)
           [CallMethod JNull (JNum 1) (JStr ''addListener'') (Some [JFunction 5])]))) =
        fst (register_all [7, 9, 7] [4]) ! 0"
proof -
  let ?st = "initial\<lparr>registeredCallbacks := [4, 7, 9]\<rparr>"
  let ?calls = "[CallMethod JNull (JNum 1) (JStr ''addListener'') (Some [JFunction 5])]"
  have r: "registeredCallbacks ?st = snd (register_all [7, 9, 7] [4])"
    by (simp add: registerCallback_def)
  have c: "ClearTestState \<notin> set ?calls" by simp
  have k: "fst (register_all [7, 9, 7] [4]) = [1, 2, 1]"
    by (simp add: registerCallback_def)
  have g: "registeredCallbacks (run sample_env [] ?st ?calls) = [4, 7, 9, 5]"
    by code_simp
  show ?thesis
    using register_same_and_distinct [of 0 "[7, 9, 7]" 2 ?st "[4]" ?calls sample_env "[]", OF _ _ r c]
      r c k g
    by simp
qed

text \<open>Claim C5 as stated fails across a registry reset: the persistent callback 6 is
  registered under index 2; after \<^verbatim>\<open>clearTestState\<close> it is still registered, index
  2 resolves to nothing, and registering it again returns index 1.\<close>

theorem persistent_index_moves:
  "registeredCallbacks two_sessions = [0, 5, 6]
   \<and> 6 \<in> persistentCallback two_sessions
   \<and> fst (registerCallback 6 (registeredCallbacks two_sessions)) = 2
   \<and> fst (clearTestState sample_env [idle_reply] two_sessions) = Returned JUndefined
   \<and> 6 \<in> set (registeredCallbacks (fst (snd (clearTestState sample_env [idle_reply] two_sessions))))
   \<and> resolve (registeredCallbacks (fst (snd (clearTestState sample_env [idle_reply] two_sessions))))
       (JNum 2) = JUndefined
   \<and> fst (registerCallback 6
       (registeredCallbacks (fst (snd (clearTestState sample_env [idle_reply] two_sessions))))) = 1"
  by code_simp

subsection \<open>Poll back-off\<close>

lemma seven_idle_polls_value:
  "pollTimeout seven_idle_polls = 1280 \<and> sessionHost seven_idle_polls = Some ''localhost:8082''"
  by code_simp

lemma poll_backoff_values:
  "t \<in> backoff_values \<Longrightarrow> poll_backoff callback command t \<in> backoff_values"
  by (auto simp: poll_backoff_def backoff_values_def)

lemma sendRequest_backoff_values:
  "pollTimeout st \<in> backoff_values \<Longrightarrow>
     pollTimeout (fst (snd (sendRequest env script st command data host))) \<in> backoff_values"
  by (rule sendRequest_invariant [where Q = "\<lambda>st. pollTimeout st \<in> backoff_values"])
    (simp_all add: clearTimeout_def setTimeout_def poll_backoff_values)

lemma perform_backoff_values:
  assumes "pollTimeout st \<in> backoff_values"
  shows "pollTimeout (fst (snd (perform env script st c))) \<in> backoff_values"
proof (cases c)
  case (Dispatch command data host)
  then show ?thesis using sendRequest_backoff_values [OF assms] by simp
next
  case (TimerFires t)
  have "pollTimeout (fst (snd (sendRequest env script
      (st\<lparr>timers := filter (\<lambda>x. fst x \<noteq> t) (timers st)\<rparr>) ''callbacks_poll'' [] None)))
      \<in> backoff_values"
    by (rule sendRequest_backoff_values) (use assms in simp)
  then show ?thesis using TimerFires assms by (simp add: timer_fires_def)
next
  case (CallMethod realmId id' name args)
  have "pollTimeout (fst (snd (sendRequest env script (st\<lparr>registeredCallbacks := r\<rparr>)
      ''call_method'' data None))) \<in> backoff_values" for r data
    by (rule sendRequest_backoff_values) (use assms in simp)
  then show ?thesis using CallMethod
    by (auto simp: callMethod_def Let_def split_def
        split: prod.split outcome.split sum.split option.split)
next
  case ClearTestState
  have "pollTimeout (fst (snd (sendRequest env script st ''clear_test_state'' [] None)))
      \<in> backoff_values"
    by (rule sendRequest_backoff_values [OF assms])
  then show ?thesis using ClearTestState
    by (auto simp: clearTestState_def split: prod.split outcome.split)
next
  case (CreateSession f host)
  define st2 where "st2 = st\<lparr>persistentCallback := insert f (persistentCallback st),
    registeredCallbacks := snd (serialize env JUndefined (JFunction f) (registeredCallbacks st))\<rparr>"
  have "pollTimeout st2 \<in> backoff_values" using assms by (simp add: st2_def)
  then have "pollTimeout (fst (snd (sendRequest env script st2 ''create_session''
      [(''refreshAccessToken'', fst (serialize env JUndefined (JFunction f) (registeredCallbacks st)))]
      host))) \<in> backoff_values"
    by (rule sendRequest_backoff_values)
  then show ?thesis using CreateSession
    by (auto simp: createSession_def st2_def Let_def split_def split: prod.split outcome.split)
qed

text \<open>
  Claim C2, as the code has it. From the initial state, after any sequence of uses of
  the bridge against any replies and with any callbacks, \<^verbatim>\<open>pollTimeout\<close> is one of
  10, 20, 40, 80, 160, 320, 640 and 1280: it starts at 10, an idle poll doubles it while
  it is below 1000, and so it stays within 10 and 1280.
\<close>

theorem pollTimeout_bounds:
  "pollTimeout initial = 10
   \<and> pollTimeout (run env script initial calls) \<in> backoff_values
   \<and> 10 \<le> pollTimeout (run env script initial calls)
   \<and> pollTimeout (run env script initial calls) \<le> 1280"
proof -
  have inv: "pollTimeout st \<in> backoff_values \<Longrightarrow>
      pollTimeout (run env script st calls) \<in> backoff_values" for st script
  proof (induction calls arbitrary: st script)
    case (Cons c cs)
    have step: "pollTimeout (fst (snd (perform env script st c))) \<in> backoff_values"
      by (rule perform_backoff_values [OF Cons.prems])
    obtain out st' script' sent where p: "perform env script st c = (out, st', script', sent)"
      by (cases "perform env script st c") auto
    show ?case using step p Cons.IH [of st' script']
      by (cases out) simp_all
  qed simp
  have "pollTimeout (run env script initial calls) \<in> backoff_values"
    by (rule inv) (simp add: initial_def backoff_values_def)
  then show ?thesis by (auto simp: backoff_values_def initial_def)
qed

text \<open>Claim C2 as stated fails: seven idle polls after the session was created leave
  \<^verbatim>\<open>pollTimeout\<close> at 1280, above 1000.\<close>

theorem pollTimeout_exceeds_1000:
  "\<not> (10 \<le> pollTimeout seven_idle_polls \<and> pollTimeout seven_idle_polls \<le> 1000)"
  using seven_idle_polls_value by simp

lemma sendRequest_one_reply:
  assumes "host_of st host = Some h"
  shows "pollTimeout (fst (snd (sendRequest env [Body response] st command data host))) =
     poll_backoff (if truthy response then read_prop response ''callback'' else response)
       command (pollTimeout st)"
  using assms
  by (auto simp: Let_def clearTimeout_def setTimeout_def
      split: sum.split prod.split option.split)

text \<open>
  Claim C4, as the code has it. After a dispatch cycle (one reply processed; a follow-up
  call, if any, still waits for its reply): if the response carried a truthy callback
  handle, or the command was not \<^verbatim>\<open>'callbacks_poll'\<close>, \<^verbatim>\<open>pollTimeout\<close> is 10;
  if the command was \<^verbatim>\<open>'callbacks_poll'\<close> and the response carried no callback
  handle, \<^verbatim>\<open>pollTimeout\<close> is doubled when it was below 1000 and unchanged otherwise.
\<close>

theorem poll_backoff_cycle:
  assumes "host_of st host = Some h"
  shows "(truthy response \<and> truthy (read_prop response ''callback'')
            \<or> command \<noteq> ''callbacks_poll''
          \<longrightarrow> pollTimeout (fst (snd (sendRequest env [Body response] st command data host))) = 10)
    \<and> ((\<not> truthy response \<or> nullish (read_prop response ''callback''))
            \<and> command = ''callbacks_poll''
          \<longrightarrow> pollTimeout (fst (snd (sendRequest env [Body response] st command data host))) =
              (if pollTimeout st < 1000 then pollTimeout st * 2 else pollTimeout st))"
  unfolding sendRequest_one_reply [OF assms]
  by (cases response) (auto simp: poll_backoff_def nullish_def)

theorem poll_backoff_cycle_witness:
  "host_of (initial\<lparr>sessionHost := Some ''h''\<rparr>) None = Some ''h''
   \<and> pollTimeout (fst (snd (sendRequest sample_env [idle_reply]
         (initial\<lparr>sessionHost := Some ''h''\<rparr>) ''callbacks_poll'' [] None))) = 20
   \<and> pollTimeout (fst (snd (sendRequest sample_env
         [Body (JObject JUndefined [(''callback'', JNum 1), (''this'', JObject JUndefined []),
            (''arguments'', JObject JUndefined [])])]
         seven_idle_polls ''callbacks_poll'' [] None))) = 10
   \<and> pollTimeout (fst (snd (sendRequest sample_env [idle_reply]
         seven_idle_polls ''get_property'' [] None))) = 10"
proof -
  have h1: "host_of (initial\<lparr>sessionHost := Some ''h''\<rparr>) None = Some ''h''"
    by (simp add: host_of_def initial_def)
  have h2: "host_of seven_idle_polls None = Some ''localhost:8082''"
    using seven_idle_polls_value by (simp add: host_of_def)
  show ?thesis
    using h1 poll_backoff_cycle [OF h1, of "JObject JUndefined [(''result'', JNull)]"
        "''callbacks_poll''" sample_env "[]"]
      poll_backoff_cycle [OF h2, of "JObject JUndefined [(''callback'', JNum 1),
        (''this'', JObject JUndefined []), (''arguments'', JObject JUndefined [])]"
        "''callbacks_poll''" sample_env "[]"]
      poll_backoff_cycle [OF h2, of "JObject JUndefined [(''result'', JNull)]"
        "''get_property''" sample_env "[]"]
    by (simp add: idle_reply_def nullish_def initial_def)
qed

text \<open>Claim C4 as stated fails: an idle poll at 1280 does not double the interval.\<close>

theorem poll_not_doubled_at_1280:
  "\<not> pollTimeout (fst (snd (sendRequest sample_env [idle_reply] seven_idle_polls
        ''callbacks_poll'' [] None))) = 2 * pollTimeout seven_idle_polls"
  by code_simp

text \<open>A poll whose response carries callback handle 0, the first index the registry
  hands out, is treated as idle by the truthiness test: the interval is doubled.\<close>

lemma poll_callback_zero_doubles:
  "pollTimeout (fst (snd (sendRequest sample_env
      [Body (JObject JUndefined [(''callback'', JNum 0), (''this'', JObject JUndefined []),
         (''arguments'', JObject JUndefined [])])]
      (initial\<lparr>sessionHost := Some ''h'', registeredCallbacks := [0]\<rparr>)
      ''callbacks_poll'' [] None))) = 20"
  by code_simp

subsection \<open>Registry reset\<close>

lemma resolve_undefined:
  "(resolve r (JNum n) = JUndefined) = (n < 0 \<or> int (length r) \<le> n)"
  by auto

lemma filter_before:
  assumes "\<forall>j. j < length r \<and> P (r ! j) \<longrightarrow> j < i"
  shows "length (filter P r) \<le> i"
proof -
  have "filter P (drop i r) = []"
  proof (rule ccontr)
    assume "filter P (drop i r) \<noteq> []"
    then obtain x where "x \<in> set (drop i r)" "P x"
      by (metis filter_False)
    then obtain k where "k < length (drop i r)" "drop i r ! k = x"
      by (metis in_set_conv_nth)
    then have "i + k < length r" "P (r ! (i + k))" using \<open>P x\<close> by auto
    with assms show False by force
  qed
  then have "filter P r = filter P (take i r)"
    by (metis append_Nil2 append_take_drop_id filter_append)
  then have "length (filter P r) \<le> length (take i r)"
    by (metis length_filter_le)
  then show ?thesis by simp
qed

text \<open>
  Claim C3, as the code has it. When \<^verbatim>\<open>clearTestState\<close> returns, the registry is
  the persistent entries of the registry it filtered (the prior entries and those added
  while its request ran), in their order and moved down to the indices from 0: every prior
  non-persistent entry is removed and every prior persistent entry retained. Afterwards a
  handle is unresolved exactly when it is not below the number of retained entries; so
  a handle that referred to a cleared entry is unresolved when every persistent entry
  stood before it, and otherwise may resolve to a retained entry.
\<close>

theorem clearTestState_registry:
  assumes "clearTestState env script st = (Returned v, st', script', sent)"
  shows "(\<exists>added. registeredCallbacks st' =
            filter (\<lambda>cb. cb \<in> persistentCallback st) (registeredCallbacks st @ added))
    \<and> persistentCallback st' = persistentCallback st
    \<and> (\<forall>cb \<in> set (registeredCallbacks st).
          (cb \<in> set (registeredCallbacks st')) = (cb \<in> persistentCallback st))
    \<and> (\<forall>cb \<in> set (registeredCallbacks st'). cb \<in> persistentCallback st)
    \<and> (\<forall>n. (resolve (registeredCallbacks st') (JNum n) = JUndefined) =
          (n < 0 \<or> int (length (registeredCallbacks st')) \<le> n))
    \<and> (\<forall>i < length (registeredCallbacks st).
          (\<forall>j. j < length (registeredCallbacks
                   (fst (snd (sendRequest env script st ''clear_test_state'' [] None))))
               \<and> registeredCallbacks
                   (fst (snd (sendRequest env script st ''clear_test_state'' [] None))) ! j
                   \<in> persistentCallback st
               \<longrightarrow> j < i)
          \<longrightarrow> resolve (registeredCallbacks st') (JNum (int i)) = JUndefined)"
proof -
  let ?mid = "fst (snd (sendRequest env script st ''clear_test_state'' [] None))"
  obtain added where added: "registeredCallbacks ?mid = registeredCallbacks st @ added"
    using sendRequest_registry_extends by blast
  have pers: "persistentCallback ?mid = persistentCallback st"
    by (rule sendRequest_persistentCallback)
  have st': "st' = ?mid\<lparr>registeredCallbacks :=
      filter (\<lambda>cb. cb \<in> persistentCallback ?mid) (registeredCallbacks ?mid)\<rparr>"
    using assms by (auto simp: clearTestState_def split: prod.splits outcome.splits)
  have reg: "registeredCallbacks st' =
      filter (\<lambda>cb. cb \<in> persistentCallback st) (registeredCallbacks st @ added)"
    using st' added pers by simp
  have "\<forall>i < length (registeredCallbacks st).
      (\<forall>j. j < length (registeredCallbacks ?mid)
           \<and> registeredCallbacks ?mid ! j \<in> persistentCallback st \<longrightarrow> j < i)
      \<longrightarrow> resolve (registeredCallbacks st') (JNum (int i)) = JUndefined"
  proof (intro allI impI)
    fix i
    assume "\<forall>j. j < length (registeredCallbacks ?mid)
           \<and> registeredCallbacks ?mid ! j \<in> persistentCallback st \<longrightarrow> j < i"
    then have "length (filter (\<lambda>cb. cb \<in> persistentCallback st) (registeredCallbacks ?mid)) \<le> i"
      by (rule filter_before)
    then show "resolve (registeredCallbacks st') (JNum (int i)) = JUndefined"
      using reg added by simp
  qed
  moreover have "persistentCallback st' = persistentCallback st"
    using st' pers by simp
  moreover have "\<forall>n. (resolve (registeredCallbacks st') (JNum n) = JUndefined) =
      (n < 0 \<or> int (length (registeredCallbacks st')) \<le> n)"
    using resolve_undefined by blast
  ultimately show ?thesis using reg by auto
qed

text \<open>Claim C3 as stated fails: with a second persistent callback registered after a
  listener, the listener's handle 1 resolves to that persistent callback after the
  reset.\<close>

theorem cleared_handle_resolves:
  "registeredCallbacks two_sessions ! 1 = 5
   \<and> 5 \<notin> persistentCallback two_sessions
   \<and> fst (clearTestState sample_env [idle_reply] two_sessions) = Returned JUndefined
   \<and> 5 \<notin> set (registeredCallbacks (fst (snd (clearTestState sample_env [idle_reply] two_sessions))))
   \<and> resolve (registeredCallbacks (fst (snd (clearTestState sample_env [idle_reply] two_sessions))))
       (JNum 1) = JFunction 6"
  by code_simp

theorem clearTestState_registry_witness:
  "fst (clearTestState sample_env [idle_reply] session_with_listener) = Returned JUndefined
   \<and> registeredCallbacks session_with_listener = [0, 5]
   \<and> registeredCallbacks (fst (snd (clearTestState sample_env [idle_reply] session_with_listener)))
       = [0]
   \<and> persistentCallback (fst (snd (clearTestState sample_env [idle_reply] session_with_listener)))
       = persistentCallback session_with_listener
   \<and> resolve (registeredCallbacks
         (fst (snd (clearTestState sample_env [idle_reply] session_with_listener)))) (JNum 1)
       = JUndefined"
proof -
  let ?X = "clearTestState sample_env [idle_reply] session_with_listener"
  have r: "fst ?X = Returned JUndefined"
    by code_simp
  have h: "?X = (Returned JUndefined, fst (snd ?X), fst (snd (snd ?X)), snd (snd (snd ?X)))"
    using r by (simp add: prod_eq_iff)
  have before: "registeredCallbacks session_with_listener = [0, 5]"
    by code_simp
  have after: "registeredCallbacks (fst (snd ?X)) = [0]"
    by code_simp
  have "persistentCallback (fst (snd ?X)) = persistentCallback session_with_listener"
    using clearTestState_registry [OF h] by blast
  then show ?thesis using r before after by simp
qed

subsection \<open>Error responses\<close>

lemma sendRequest_error_branch:
  assumes "host_of st host = Some h"
    and "\<not> truthy response \<or> truthy (read_prop response ''error'')"
  shows "fst (sendRequest env (Body response # script) st command data host) =
     Raised (response_error env command response)"
  using assms by (auto simp: Let_def)

lemma colon_no_letter: "\<not> is_letter CHR '':''"
  by (simp add: is_letter_def)

lemma replace_type_prefix_word:
  assumes "w \<noteq> []" and "list_all is_letter w"
  shows "replace_type_prefix (w @ '': '' @ rest) = rest"
proof -
  have all: "\<forall>c \<in> set w. is_letter c" using assms(2) by (simp add: list_all_iff)
  have t: "takeWhile is_letter (w @ '': '' @ rest) = w"
    using all colon_no_letter by (simp add: takeWhile_append2)
  have d: "dropWhile is_letter (w @ '': '' @ rest) = '': '' @ rest"
    using all colon_no_letter by (simp add: dropWhile_append2)
  show ?thesis using assms(1) unfolding replace_type_prefix_def t d by (simp add: Let_def)
qed

lemma json_loop_flat:
  assumes "length vs = length ks"
  shows "i \<le> length ks \<Longrightarrow>
     deserialize_json_value_loop env
       (JObject a [(''type'', JStr ''dict''), (''keys'', JArray b (map JStr ks)),
          (''values'', JArray c (map (\<lambda>v. JObject d [(''value'', v)]) vs))]) i result =
     Inr (foldl (\<lambda>object (k, v). obj_set object k v) result (drop i (zip ks vs)))"
proof (induction "length ks - i" arbitrary: i result)
  case 0
  then show ?case using assms
    by (simp add: deserialize_json_value_loop.simps [of _ _ i] nullish_def get_prop_def)
next
  case (Suc n)
  then have lt: "i < length ks" by simp
  have d: "drop i (zip ks vs) = (ks ! i, vs ! i) # drop (Suc i) (zip ks vs)"
    using lt assms by (simp add: Cons_nth_drop_Suc [symmetric])
  have n: "n = length ks - Suc i" using Suc.hyps(2) by simp
  from Suc.hyps(1) [OF n, of "obj_set result (ks ! i) (vs ! i)"] lt assms d show ?case
    by (simp add: deserialize_json_value_loop.simps [of _ _ i] get_index_def get_prop_def
        nullish_def Let_def)
qed

lemma deserialize_json_value_flat:
  assumes "length vs = length ks" and "distinct ks" and "''__proto__'' \<notin> set ks"
  shows "deserialize_json_value env
       (JObject a [(''type'', JStr ''dict''), (''keys'', JArray b (map JStr ks)),
          (''values'', JArray c (map (\<lambda>v. JObject d [(''value'', v)]) vs))]) =
     Inr (zip ks vs)"
proof -
  have "distinct (map fst (zip ks vs))" and "''__proto__'' \<notin> fst ` set (zip ks vs)"
    using assms by (auto dest: set_zip_leftD)
  then have "foldl (\<lambda>object (k, v). obj_set object k v) [] (zip ks vs) = [] @ zip ks vs"
    by (intro assign_distinct) simp_all
  then show ?thesis using json_loop_flat [OF assms(1), of 0 env a b c d "[]"] by simp
qed

lemma obj_get_set:
  "k' \<noteq> ''__proto__'' \<Longrightarrow> obj_get (obj_set ps k' v) k = (if k = k' then v else obj_get ps k)"
  by (induction ps) auto

lemma keys_obj_set:
  "k \<noteq> ''__proto__'' \<Longrightarrow> fst ` set (obj_set ps k v) = insert k (fst ` set ps)"
proof (induction ps)
  case (Cons p ps)
  obtain k' v' where p: "p = (k', v')" by (cases p)
  show ?case using Cons p by (cases "k' = k") auto
qed simp

lemma keys_assign:
  "''__proto__'' \<notin> fst ` set qs \<Longrightarrow>
     fst ` set (foldl (\<lambda>object (k, v). obj_set object k v) ps qs) = fst ` set ps \<union> fst ` set qs"
proof (induction qs arbitrary: ps)
  case (Cons q qs)
  obtain k v where q: "q = (k, v)" by (cases q)
  have k: "k \<noteq> ''__proto__''" using Cons.prems q by auto
  have "''__proto__'' \<notin> fst ` set qs" using Cons.prems by auto
  from Cons.IH [OF this, of "obj_set ps k v"] q k show ?case
    by (simp add: keys_obj_set)
qed simp

lemma obj_get_assign:
  "distinct (map fst qs) \<Longrightarrow> ''__proto__'' \<notin> fst ` set qs \<Longrightarrow>
     obj_get (foldl (\<lambda>object (k, v). obj_set object k v) ps qs) k =
       (if k \<in> fst ` set qs then obj_get qs k else obj_get ps k)"
proof (induction qs arbitrary: ps)
  case (Cons q qs)
  obtain k' v where q: "q = (k', v)" by (cases q)
  have k': "k' \<noteq> ''__proto__''" and fresh: "k' \<notin> fst ` set qs"
    using Cons.prems q by auto
  have d: "distinct (map fst qs)" and p: "''__proto__'' \<notin> fst ` set qs"
    using Cons.prems by auto
  from Cons.IH [OF d p, of "obj_set ps k' v"] q k' fresh show ?case
    by (auto simp: obj_get_set)
qed simp

lemma error_property_fields:
  assumes "distinct (map fst extra)" and "''__proto__'' \<notin> fst ` set extra"
  shows "error_property env (JStr s) extra k =
     (if k \<in> fst ` set extra then obj_get extra k
      else if k = ''message'' then JStr s else JUndefined)"
  using assms
  by (simp add: error_property_def objectAssign_def Let_def keys_assign obj_get_assign)

lemma json_loop_nested:
  assumes "length fs = length ks"
    and "\<forall>j < length ks. \<forall>ks' fs'. fs ! j = Dict ks' fs' \<longrightarrow>
           deserialize_json_value env (dict_envelope (fs ! j)) = Inr (zip ks' (map dict_value fs'))"
  shows "i \<le> length ks \<Longrightarrow>
     deserialize_json_value_loop env (dict_envelope (Dict ks fs)) i result =
     Inr (foldl (\<lambda>object (k, v). obj_set object k v) result
            (drop i (zip ks (map dict_value fs))))"
proof (induction "length ks - i" arbitrary: i result)
  case 0
  then show ?case using assms(1)
    by (simp add: deserialize_json_value_loop.simps [of _ _ i] nullish_def get_prop_def)
next
  case (Suc n)
  then have lt: "i < length ks" by simp
  have d: "drop i (zip ks (map dict_value fs)) =
      (ks ! i, dict_value (fs ! i)) # drop (Suc i) (zip ks (map dict_value fs))"
    using lt assms(1) by (simp add: Cons_nth_drop_Suc [symmetric])
  have n: "n = length ks - Suc i" using Suc.hyps(2) by simp
  show ?case
  proof (cases "fs ! i")
    case (Leaf v)
    from Suc.hyps(1) [OF n, of "obj_set result (ks ! i) v"] lt assms(1) d Leaf show ?thesis
      by (simp add: deserialize_json_value_loop.simps [of _ _ i] get_index_def get_prop_def
          nullish_def Let_def)
  next
    case (Dict ks' fs')
    have inner: "deserialize_json_value env (dict_envelope (Dict ks' fs')) =
        Inr (zip ks' (map dict_value fs'))"
      using assms(2) lt Dict by metis
    from Suc.hyps(1) [OF n, of "obj_set result (ks ! i)
        (JObject JUndefined (zip ks' (map dict_value fs')))"] lt assms(1) d Dict inner
    show ?thesis
      by (simp add: deserialize_json_value_loop.simps [of _ _ i] get_index_def get_prop_def
          nullish_def Let_def)
  qed
qed

lemma deserialize_json_value_nested:
  "dict_well_formed f \<Longrightarrow> f = Dict ks fs \<Longrightarrow>
     deserialize_json_value env (dict_envelope f) = Inr (zip ks (map dict_value fs))"
proof (induction f arbitrary: ks fs)
  case (Dict ks0 fs0)
  then have eq: "ks0 = ks" "fs0 = fs" by simp_all
  have wf: "length fs = length ks" "distinct ks" "''__proto__'' \<notin> set ks"
    "list_all dict_well_formed fs"
    using Dict.prems eq by simp_all
  have each: "\<forall>j < length ks. \<forall>ks' fs'. fs ! j = Dict ks' fs' \<longrightarrow>
      deserialize_json_value env (dict_envelope (fs ! j)) = Inr (zip ks' (map dict_value fs'))"
  proof (intro allI impI)
    fix j ks' fs'
    assume j: "j < length ks" and c: "fs ! j = Dict ks' fs'"
    have m: "fs ! j \<in> set fs0" using j wf(1) eq by simp
    have w: "dict_well_formed (fs ! j)" using wf(4) j wf(1) by (simp add: list_all_length)
    show "deserialize_json_value env (dict_envelope (fs ! j)) = Inr (zip ks' (map dict_value fs'))"
      by (rule Dict.IH [OF m w c])
  qed
  have "distinct (map fst (zip ks (map dict_value fs)))"
    and "''__proto__'' \<notin> fst ` set (zip ks (map dict_value fs))"
    using wf by (auto dest: set_zip_leftD)
  then have "foldl (\<lambda>object (k, v). obj_set object k v) [] (zip ks (map dict_value fs)) =
      [] @ zip ks (map dict_value fs)"
    by (intro assign_distinct) simp_all
  then show ?case using json_loop_nested [OF wf(1) each, of 0 "[]"] eq by simp
qed simp

lemma replace_type_prefix_none:
  assumes "\<forall>w rest. s = w @ '': '' @ rest \<longrightarrow> w = [] \<or> \<not> list_all is_letter w"
  shows "replace_type_prefix s = s"
proof (rule ccontr)
  assume neq: "replace_type_prefix s \<noteq> s"
  let ?w = "takeWhile is_letter s" and ?rest = "dropWhile is_letter s"
  have w: "?w \<noteq> []" and t: "take 2 ?rest = '': ''"
    using neq by (auto simp: replace_type_prefix_def Let_def split: if_splits)
  have "?rest = take 2 ?rest @ drop 2 ?rest" by simp
  then have "s = ?w @ '': '' @ drop 2 ?rest"
    using t by (metis takeWhile_dropWhile_id)
  moreover have "list_all is_letter ?w"
    by (simp add: list_all_iff) (meson set_takeWhileD)
  ultimately show False using assms w by blast
qed

lemma obj_get_zip:
  "distinct ks \<Longrightarrow> length vs = length ks \<Longrightarrow> j < length ks \<Longrightarrow>
     obj_get (zip ks vs) (ks ! j) = vs ! j"
proof (induction ks arbitrary: vs j)
  case (Cons k ks)
  then obtain v ws where vs: "vs = v # ws" by (cases vs) auto
  show ?case
  proof (cases j)
    case 0
    then show ?thesis using vs by simp
  next
    case (Suc m)
    then have "ks ! m \<in> set ks" using Cons.prems by simp
    then have "k \<noteq> ks ! m" using Cons.prems(1) by auto
    then show ?thesis using Cons vs Suc by simp
  qed
qed simp

text \<open>
  Claim C6, as the code has it. When the response carries an error and a host is known: a
  string error whose stripped form is not empty is raised as \<^verbatim>\<open>new Error\<close> of the
  string with its type prefix replaced; the replacement removes one leading word of
  letters of either case together with the \<^verbatim>\<open>': '\<close> after it, and leaves a string
  that does not start that way as it is. A dict error with a non-empty string under the
  sibling \<^verbatim>\<open>message\<close> is raised as \<^verbatim>\<open>new Error\<close> of that message, stripped
  the same way, with the fields \<^verbatim>\<open>deserialize_json_value\<close> reads from the dict
  assigned onto it. For a flat dict envelope those fields are its keys paired with its
  values; for a well-formed dict envelope, nested dictionaries included, the error raised
  has every field of the dict as a property, a nested dictionary as an object, and its
  \<^verbatim>\<open>message\<close> is the stripped sibling message when the dict has no field of that
  name.
\<close>

theorem response_error_raised:
  assumes "host_of st host = Some h"
  shows "(obj_get ps ''error'' = JStr s \<and> replace_type_prefix s \<noteq> []
          \<longrightarrow> fst (sendRequest env (Body (JObject i ps) # script) st command data host) =
              Raised (ErrorObject (JStr (replace_type_prefix s)) []))
    \<and> (\<forall>w rest. w \<noteq> [] \<and> list_all is_letter w
          \<longrightarrow> replace_type_prefix (w @ '': '' @ rest) = rest)
    \<and> ((\<forall>w rest. s = w @ '': '' @ rest \<longrightarrow> w = [] \<or> \<not> list_all is_letter w)
          \<longrightarrow> replace_type_prefix s = s)
    \<and> (obj_get ps ''error'' = JObject i' eps \<and> obj_get eps ''type'' = JStr ''dict''
          \<and> \<not> truthy (obj_get eps ''replace'')
          \<and> deserialize_json_value env (JObject i' eps) = Inr extra
          \<and> obj_get ps ''message'' = JStr m \<and> m \<noteq> []
          \<longrightarrow> fst (sendRequest env (Body (JObject i ps) # script) st command data host) =
              Raised (ErrorObject (JStr (replace_type_prefix m)) extra))
    \<and> (length vs = length ks \<and> distinct ks \<and> ''__proto__'' \<notin> set ks
          \<longrightarrow> deserialize_json_value env
                (JObject a [(''type'', JStr ''dict''), (''keys'', JArray b (map JStr ks)),
                   (''values'', JArray c (map (\<lambda>v. JObject d [(''value'', v)]) vs))]) =
              Inr (zip ks vs))
    \<and> (dict_well_formed (Dict names members)
          \<and> obj_get ps ''error'' = dict_envelope (Dict names members)
          \<and> obj_get ps ''message'' = JStr m \<and> m \<noteq> []
          \<longrightarrow> fst (sendRequest env (Body (JObject i ps) # script) st command data host) =
                Raised (ErrorObject (JStr (replace_type_prefix m))
                  (zip names (map dict_value members)))
              \<and> (\<forall>j < length names.
                    error_property env (JStr (replace_type_prefix m))
                      (zip names (map dict_value members)) (names ! j) = dict_value (members ! j))
              \<and> (''message'' \<notin> set names \<longrightarrow>
                    error_property env (JStr (replace_type_prefix m))
                      (zip names (map dict_value members)) ''message'' =
                    JStr (replace_type_prefix m)))"
proof (intro conjI impI allI)
  assume a: "obj_get ps ''error'' = JStr s \<and> replace_type_prefix s \<noteq> []"
  then have "s \<noteq> []" by (auto simp: replace_type_prefix_def)
  then show "fst (sendRequest env (Body (JObject i ps) # script) st command data host) =
      Raised (ErrorObject (JStr (replace_type_prefix s)) [])"
    using a sendRequest_error_branch [OF assms, of "JObject i ps" env script command data]
    by (simp add: response_error_def Let_def)
next
  fix w rest
  assume "w \<noteq> [] \<and> list_all is_letter w"
  then show "replace_type_prefix (w @ '': '' @ rest) = rest"
    using replace_type_prefix_word by blast
next
  assume "\<forall>w rest. s = w @ '': '' @ rest \<longrightarrow> w = [] \<or> \<not> list_all is_letter w"
  then show "replace_type_prefix s = s"
    by (rule replace_type_prefix_none)
next
  assume a: "obj_get ps ''error'' = JObject i' eps \<and> obj_get eps ''type'' = JStr ''dict''
          \<and> \<not> truthy (obj_get eps ''replace'')
          \<and> deserialize_json_value env (JObject i' eps) = Inr extra
          \<and> obj_get ps ''message'' = JStr m \<and> m \<noteq> []"
  then show "fst (sendRequest env (Body (JObject i ps) # script) st command data host) =
      Raised (ErrorObject (JStr (replace_type_prefix m)) extra)"
    using sendRequest_error_branch [OF assms, of "JObject i ps" env script command data]
    by (simp add: response_error_def Let_def get_prop_def nullish_def)
next
  assume "length vs = length ks \<and> distinct ks \<and> ''__proto__'' \<notin> set ks"
  then show "deserialize_json_value env
      (JObject a [(''type'', JStr ''dict''), (''keys'', JArray b (map JStr ks)),
         (''values'', JArray c (map (\<lambda>v. JObject d [(''value'', v)]) vs))]) = Inr (zip ks vs)"
    using deserialize_json_value_flat by blast
next
  assume a: "dict_well_formed (Dict names members)
          \<and> obj_get ps ''error'' = dict_envelope (Dict names members)
          \<and> obj_get ps ''message'' = JStr m \<and> m \<noteq> []"
  have d: "deserialize_json_value env (dict_envelope (Dict names members)) =
      Inr (zip names (map dict_value members))"
    using a deserialize_json_value_nested by blast
  have "response_error env command (JObject i ps) =
      ErrorObject (JStr (replace_type_prefix m)) (zip names (map dict_value members))"
    using a d by (simp add: response_error_def Let_def get_prop_def nullish_def)
  then show "fst (sendRequest env (Body (JObject i ps) # script) st command data host) =
      Raised (ErrorObject (JStr (replace_type_prefix m)) (zip names (map dict_value members)))"
    using a sendRequest_error_branch [OF assms, of "JObject i ps" env script command data]
    by simp
next
  fix j
  assume a: "dict_well_formed (Dict names members)
          \<and> obj_get ps ''error'' = dict_envelope (Dict names members)
          \<and> obj_get ps ''message'' = JStr m \<and> m \<noteq> []"
    and j: "j < length names"
  have wf: "length members = length names" "distinct names" "''__proto__'' \<notin> set names"
    using a by simp_all
  have keys: "fst ` set (zip names (map dict_value members)) = set names"
    using wf(1) by (metis length_map map_fst_zip set_map)
  have "error_property env (JStr (replace_type_prefix m)) (zip names (map dict_value members))
      (names ! j) = obj_get (zip names (map dict_value members)) (names ! j)"
    using wf j keys by (subst error_property_fields) (simp_all add: map_fst_zip)
  also have "\<dots> = map dict_value members ! j"
    using wf j by (intro obj_get_zip) simp_all
  finally show "error_property env (JStr (replace_type_prefix m))
      (zip names (map dict_value members)) (names ! j) = dict_value (members ! j)"
    using wf j by simp
next
  assume a: "dict_well_formed (Dict names members)
          \<and> obj_get ps ''error'' = dict_envelope (Dict names members)
          \<and> obj_get ps ''message'' = JStr m \<and> m \<noteq> []"
    and n: "''message'' \<notin> set names"
  have wf: "length members = length names" "distinct names" "''__proto__'' \<notin> set names"
    using a by simp_all
  have keys: "fst ` set (zip names (map dict_value members)) = set names"
    using wf(1) by (metis length_map map_fst_zip set_map)
  show "error_property env (JStr (replace_type_prefix m))
      (zip names (map dict_value members)) ''message'' = JStr (replace_type_prefix m)"
    using wf n keys by (subst error_property_fields) (simp_all add: map_fst_zip)
qed

theorem response_error_raised_witness:
  "host_of (initial\<lparr>sessionHost := Some ''h''\<rparr>) None = Some ''h''
   \<and> replace_type_prefix ''Error: boom'' = ''boom''
   \<and> replace_type_prefix ''boom'' = ''boom''
   \<and> replace_type_prefix ''E1: boom'' = ''E1: boom''
   \<and> fst (sendRequest sample_env [Body (JObject JUndefined [(''error'', JStr ''Error: boom'')])]
         (initial\<lparr>sessionHost := Some ''h''\<rparr>) ''call_method'' [] None) =
       Raised (ErrorObject (JStr ''boom'') [])
   \<and> fst (sendRequest sample_env [Body (JObject JUndefined [(''error'', JStr ''boom'')])]
         (initial\<lparr>sessionHost := Some ''h''\<rparr>) ''call_method'' [] None) =
       Raised (ErrorObject (JStr ''boom'') [])
   \<and> fst (sendRequest sample_env
         [Body (JObject JUndefined
            [(''error'', JObject JUndefined
                [(''type'', JStr ''dict''),
                 (''keys'', JArray JUndefined [JStr ''code'', JStr ''info'']),
                 (''values'', JArray JUndefined
                    [JObject JUndefined [(''value'', JNum 7)],
                     JObject JUndefined
                       [(''type'', JStr ''dict''),
                        (''keys'', JArray JUndefined [JStr ''name'']),
                        (''values'', JArray JUndefined
                           [JObject JUndefined [(''value'', JStr ''SyncError'')]])]])]),
             (''message'', JStr ''typeerror: bad'')])]
         (initial\<lparr>sessionHost := Some ''h''\<rparr>) ''call_method'' [] None) =
       Raised (ErrorObject (JStr ''bad'')
         [(''code'', JNum 7),
          (''info'', JObject JUndefined [(''name'', JStr ''SyncError'')])])
   \<and> error_property sample_env (JStr ''bad'')
         [(''code'', JNum 7),
          (''info'', JObject JUndefined [(''name'', JStr ''SyncError'')])] ''info'' =
       JObject JUndefined [(''name'', JStr ''SyncError'')]
   \<and> error_property sample_env (JStr ''bad'')
         [(''code'', JNum 7),
          (''info'', JObject JUndefined [(''name'', JStr ''SyncError'')])] ''message'' =
       JStr ''bad''"
proof -
  let ?st = "initial\<lparr>sessionHost := Some ''h''\<rparr>"
  let ?f = "Dict [''code'', ''info''] [Leaf (JNum 7), Dict [''name''] [Leaf (JStr ''SyncError'')]]"
  let ?ps = "[(''error'', dict_envelope ?f), (''message'', JStr ''typeerror: bad'')]"
  have h: "host_of ?st None = Some ''h''"
    by (simp add: host_of_def initial_def)
  note at_sample = response_error_raised [OF h, where env = sample_env and script = "[]"
      and command = "''call_method''" and data = "[]" and i = JUndefined]
  have word: "w \<noteq> [] \<and> list_all is_letter w
      \<longrightarrow> replace_type_prefix (w @ '': '' @ rest) = rest" for w rest
    using at_sample [where ps = "[]"] by blast
  have p: "replace_type_prefix ''Error: boom'' = ''boom''"
    using word [of "''Error''" "''boom''"] by (simp add: is_letter_def)
  have q: "replace_type_prefix ''typeerror: bad'' = ''bad''"
    using word [of "''typeerror''" "''bad''"] by (simp add: is_letter_def)
  have none: "\<forall>w rest. ''boom'' = w @ '': '' @ rest \<longrightarrow> w = [] \<or> \<not> list_all is_letter w"
  proof (intro allI impI)
    fix w rest
    assume "''boom'' = w @ '': '' @ rest"
    then have "set ''boom'' = set (w @ '': '' @ rest)" by (rule arg_cong)
    then have "CHR '':'' \<in> set ''boom''" by simp
    then show "w = [] \<or> \<not> list_all is_letter w" by simp
  qed
  have u: "replace_type_prefix ''boom'' = ''boom''"
    using at_sample [where ps = "[]" and s = "''boom''"] none by blast
  have digit: "replace_type_prefix ''E1: boom'' = ''E1: boom''"
    by code_simp
  have 1: "fst (sendRequest sample_env [Body (JObject JUndefined [(''error'', JStr ''Error: boom'')])]
         ?st ''call_method'' [] None) = Raised (ErrorObject (JStr ''boom'') [])"
    using at_sample [where ps = "[(''error'', JStr ''Error: boom'')]" and s = "''Error: boom''"] p
    by simp
  have 2: "fst (sendRequest sample_env [Body (JObject JUndefined [(''error'', JStr ''boom'')])]
         ?st ''call_method'' [] None) = Raised (ErrorObject (JStr ''boom'') [])"
    using at_sample [where ps = "[(''error'', JStr ''boom'')]" and s = "''boom''"] u
    by simp
  have wf: "dict_well_formed ?f" by simp
  have 3: "fst (sendRequest sample_env [Body (JObject JUndefined ?ps)] ?st ''call_method'' [] None) =
        Raised (ErrorObject (JStr (replace_type_prefix ''typeerror: bad''))
          (zip [''code'', ''info''] (map dict_value
             [Leaf (JNum 7), Dict [''name''] [Leaf (JStr ''SyncError'')]])))
      \<and> (\<forall>j < length [''code'', ''info''].
            error_property sample_env (JStr (replace_type_prefix ''typeerror: bad''))
              (zip [''code'', ''info''] (map dict_value
                 [Leaf (JNum 7), Dict [''name''] [Leaf (JStr ''SyncError'')]]))
              ([''code'', ''info''] ! j) =
            dict_value ([Leaf (JNum 7), Dict [''name''] [Leaf (JStr ''SyncError'')]] ! j))
      \<and> (''message'' \<notin> set [''code'', ''info''] \<longrightarrow>
            error_property sample_env (JStr (replace_type_prefix ''typeerror: bad''))
              (zip [''code'', ''info''] (map dict_value
                 [Leaf (JNum 7), Dict [''name''] [Leaf (JStr ''SyncError'')]])) ''message'' =
            JStr (replace_type_prefix ''typeerror: bad''))"
    using at_sample [where ps = ?ps and names = "[''code'', ''info'']"
        and members = "[Leaf (JNum 7), Dict [''name''] [Leaf (JStr ''SyncError'')]]"
        and m = "''typeerror: bad''"] wf
    by simp
  have nested: "fst (sendRequest sample_env [Body (JObject JUndefined ?ps)] ?st ''call_method'' [] None) =
        Raised (ErrorObject (JStr ''bad'')
         [(''code'', JNum 7), (''info'', JObject JUndefined [(''name'', JStr ''SyncError'')])])"
    using 3 q by simp
  have member: "error_property sample_env (JStr ''bad'')
         [(''code'', JNum 7), (''info'', JObject JUndefined [(''name'', JStr ''SyncError'')])]
         ''info'' = JObject JUndefined [(''name'', JStr ''SyncError'')]"
    using 3 q by (simp add: All_less_Suc2 numeral_2_eq_2)
  have msg: "error_property sample_env (JStr ''bad'')
         [(''code'', JNum 7), (''info'', JObject JUndefined [(''name'', JStr ''SyncError'')])]
         ''message'' = JStr ''bad''"
    using 3 q by simp
  show ?thesis using h p u digit 1 2 nested member msg by simp
qed

text \<open>Claim C6 as stated fails: when the dict has a field named \<^verbatim>\<open>message\<close>, the
  assignment of the fields replaces the message taken from the sibling
  \<^verbatim>\<open>message\<close>.\<close>

theorem dict_message_replaces_sibling:
  "fst (sendRequest sample_env
      [Body (JObject JUndefined
         [(''error'', JObject JUndefined
             [(''type'', JStr ''dict''),
              (''keys'', JArray JUndefined [JStr ''message'', JStr ''code'']),
              (''values'', JArray JUndefined
                 [JObject JUndefined [(''value'', JStr ''inner'')],
                  JObject JUndefined [(''value'', JNum 7)]])]),
          (''message'', JStr ''Error: outer'')])]
      (initial\<lparr>sessionHost := Some ''h''\<rparr>) ''call_method'' [] None)
   = Raised (ErrorObject (JStr ''outer'') [(''message'', JStr ''inner''), (''code'', JNum 7)])
   \<and> error_property sample_env (JStr ''outer'')
       [(''message'', JStr ''inner''), (''code'', JNum 7)] ''message'' = JStr ''inner''
   \<and> JStr ''inner'' \<noteq> JStr ''outer''"
  by code_simp

text \<open>
  Claim C7, as the code has it. With a host known, the generic error naming the command
  is raised when the response is falsy without being \<^verbatim>\<open>null\<close> or
  \<^verbatim>\<open>undefined\<close>, and when its error is a non-empty string that the prefix
  replacement leaves empty; a dict error with no usable \<^verbatim>\<open>message\<close> is raised as
  an error without message that carries the dict's fields.
\<close>

theorem generic_error_raised:
  assumes "host_of st host = Some h"
  shows "(\<not> truthy response \<and> \<not> nullish response
          \<longrightarrow> fst (sendRequest env (Body response # script) st command data host) =
              Raised (invalid_response command))
    \<and> (obj_get ps ''error'' = JStr s \<and> s \<noteq> [] \<and> replace_type_prefix s = []
          \<longrightarrow> fst (sendRequest env (Body (JObject i ps) # script) st command data host) =
              Raised (invalid_response command))
    \<and> (obj_get ps ''error'' = JObject i' eps \<and> obj_get eps ''type'' = JStr ''dict''
          \<and> \<not> truthy (obj_get eps ''replace'')
          \<and> deserialize_json_value env (JObject i' eps) = Inr extra
          \<and> \<not> truthy (obj_get ps ''message'')
          \<longrightarrow> fst (sendRequest env (Body (JObject i ps) # script) st command data host) =
              Raised (ErrorObject JUndefined extra))"
proof (intro conjI impI)
  assume a: "\<not> truthy response \<and> \<not> nullish response"
  have b: "read_prop response ''type'' = JUndefined"
    using a by (cases response) simp_all
  have "response_error env command response = invalid_response command"
    using a b by (simp add: response_error_def invalid_response_def Let_def get_prop_def)
  then show "fst (sendRequest env (Body response # script) st command data host) =
      Raised (invalid_response command)"
    using a sendRequest_error_branch [OF assms, of response env script command data]
    by simp
next
  assume a: "obj_get ps ''error'' = JStr s \<and> s \<noteq> [] \<and> replace_type_prefix s = []"
  then have "response_error env command (JObject i ps) = invalid_response command"
    by (simp add: response_error_def invalid_response_def Let_def)
  then show "fst (sendRequest env (Body (JObject i ps) # script) st command data host) =
      Raised (invalid_response command)"
    using a sendRequest_error_branch [OF assms, of "JObject i ps" env script command data]
    by simp
next
  assume a: "obj_get ps ''error'' = JObject i' eps \<and> obj_get eps ''type'' = JStr ''dict''
          \<and> \<not> truthy (obj_get eps ''replace'')
          \<and> deserialize_json_value env (JObject i' eps) = Inr extra
          \<and> \<not> truthy (obj_get ps ''message'')"
  then have "response_error env command (JObject i ps) = ErrorObject JUndefined extra"
    by (simp add: response_error_def Let_def get_prop_def nullish_def)
  then show "fst (sendRequest env (Body (JObject i ps) # script) st command data host) =
      Raised (ErrorObject JUndefined extra)"
    using a sendRequest_error_branch [OF assms, of "JObject i ps" env script command data]
    by simp
qed

theorem generic_error_raised_witness:
  "host_of (initial\<lparr>sessionHost := Some ''h''\<rparr>) None = Some ''h''
   \<and> fst (sendRequest sample_env [Body (JBool False)]
         (initial\<lparr>sessionHost := Some ''h''\<rparr>) ''get_property'' [] None) =
       Raised (ErrorObject (JStr ''Invalid response for \"get_property\"'') [])
   \<and> fst (sendRequest sample_env [Body (JObject JUndefined [(''error'', JStr ''Error: '')])]
         (initial\<lparr>sessionHost := Some ''h''\<rparr>) ''get_property'' [] None) =
       Raised (ErrorObject (JStr ''Invalid response for \"get_property\"'') [])"
proof -
  let ?st = "initial\<lparr>sessionHost := Some ''h''\<rparr>"
  have h: "host_of ?st None = Some ''h''"
    by (simp add: host_of_def initial_def)
  have e: "replace_type_prefix ''Error: '' = []"
    by (simp add: replace_type_prefix_def is_letter_def)
  have 1: "fst (sendRequest sample_env [Body (JBool False)] ?st ''get_property'' [] None) =
      Raised (invalid_response ''get_property'')"
    using generic_error_raised [OF h, where response = "JBool False" and env = sample_env
        and script = "[]" and command = "''get_property''" and data = "[]" and ps = "[]"]
    by (simp add: nullish_def)
  have 2: "fst (sendRequest sample_env [Body (JObject JUndefined [(''error'', JStr ''Error: '')])]
      ?st ''get_property'' [] None) = Raised (invalid_response ''get_property'')"
    using generic_error_raised [OF h, where ps = "[(''error'', JStr ''Error: '')]"
        and s = "''Error: ''" and env = sample_env and i = JUndefined
        and script = "[]" and command = "''get_property''" and data = "[]"] e
    by simp
  show ?thesis using h 1 2 by (simp add: invalid_response_def)
qed

text \<open>A \<^verbatim>\<open>null\<close> response does not reach the generic error: reading
  \<^verbatim>\<open>error.type\<close> throws first.\<close>

lemma null_response_type_error:
  assumes "host_of st host = Some h"
  shows "fst (sendRequest env (Body JNull # script) st command data host) = Raised TypeError"
  using sendRequest_error_branch [OF assms, of JNull env script command data]
  by (simp add: response_error_def get_prop_def nullish_def)

text \<open>Claim C7 as stated fails: for a dict error with no message at all the error
  raised is not the generic one.\<close>

theorem dict_error_without_message:
  "fst (sendRequest sample_env
      [Body (JObject JUndefined
         [(''error'', JObject JUndefined
             [(''type'', JStr ''dict''), (''keys'', JArray JUndefined [JStr ''code'']),
              (''values'', JArray JUndefined [JObject JUndefined [(''value'', JNum 7)]])])])]
      (initial\<lparr>sessionHost := Some ''h''\<rparr>) ''get_property'' [] None)
   = Raised (ErrorObject JUndefined [(''code'', JNum 7)])
   \<and> Raised (ErrorObject JUndefined [(''code'', JNum 7)]) \<noteq>
       Raised (invalid_response ''get_property'')"
  by code_simp

subsection \<open>Callback requests\<close>


lemma host_of_update [simp]:
  "host_of (clearTimeout st) host = host_of st host"
  "host_of (st\<lparr>pollTimeout := t\<rparr>) host = host_of st host"
  "host_of (st\<lparr>registeredCallbacks := r\<rparr>) host = host_of st host"
  by (simp_all add: host_of_def clearTimeout_def split: option.split)

lemma request_of_update [simp]:
  "request_of (clearTimeout st) h command data = request_of st h command data"
  "request_of (st\<lparr>pollTimeout := t\<rparr>) h command data = request_of st h command data"
  "request_of (st\<lparr>registeredCallbacks := r\<rparr>) h command data = request_of st h command data"
  by (simp_all add: request_of_def clearTimeout_def)



text \<open>An exception caught in the callback branch that is neither \<^verbatim>\<open>null\<close> nor
  \<^verbatim>\<open>undefined\<close> becomes the \<^verbatim>\<open>error\<close> and \<^verbatim>\<open>stack\<close> of the follow-up
  payload, and nothing is thrown.\<close>

lemma callback_exception_reported:
  assumes "try_callback env r data response callback = Inl e" and "\<not> nullish e"
  shows "callback_outcome env r data response callback =
     Inr (JUndefined,
          if truthy (read_prop e ''message'') then read_prop e ''message''
          else JStr (to_string env e),
          if truthy (read_prop e ''stack'') then stringify env (read_prop e ''stack'')
          else JUndefined,
          r)"
  using assms by (simp add: callback_outcome_def catch_callback_def get_prop_def)

text \<open>Callback 1 throws an object with a message and a stack: the caller gets the
  terminal result of the chain, after two requests.\<close>

lemma callback_exception_example:
  "fst (sendRequest sample_env [Body (callback_request 1), idle_reply] three_callbacks
      ''call_method'' [] None) = Returned JNull
   \<and> length (snd (snd (snd (sendRequest sample_env [Body (callback_request 1), idle_reply]
      three_callbacks ''call_method'' [] None)))) = 2"
  by code_simp

text \<open>
  Claim C8 at a callback that throws \<^verbatim>\<open>null\<close>: reading \<^verbatim>\<open>e.message\<close> in
  the \<^verbatim>\<open>catch\<close> clause throws a \<^verbatim>\<open>TypeError\<close>, which reaches the caller of
  \<^verbatim>\<open>sendRequest\<close>; no follow-up request is sent and the next reply is not consumed.
\<close>

theorem callback_throwing_null_propagates:
  "resolve (registeredCallbacks three_callbacks) (JNum 2) = JFunction 2
   \<and> invoke sample_env 2 JNull (JArray JUndefined []) = Throws JNull
   \<and> sendRequest sample_env [Body (callback_request 2), idle_reply] three_callbacks
        ''call_method'' [] None =
      (Raised TypeError, setTimeout (clearTimeout three_callbacks), [idle_reply],
       [(''http://localhost:8082/call_method'', [(''sessionId'', JStr ''first'')])])"
  by code_simp

end
